theory Spec2Isabelle
  imports Main "HOL-Library.Sublist"
begin

section \<open>Values of the JavaScript program\<close>

text \<open>
  The server (\<^verbatim>\<open>pdf-webhook-server.js\<close>, version 4.0) works on parsed JSON: the inbound
  request body and the response of the message API. A JSON value is modelled with the
  shape \<^verbatim>\<open>JSON.parse\<close> returns, plus \<^verbatim>\<open>undefined\<close> for a property that is absent.
  Numbers are integers: the program only ever tests a number for truthiness. Strings are
  lists of 8-bit characters, read as the code points below 256.
\<close>

datatype json =
    JUndefined
  | JNull
  | JBool bool
  | JNum int
  | JStr string
  | JArr "json list"
  | JObj "(string \<times> json) list"

text \<open>A thrown value: an \<^verbatim>\<open>Error\<close> with its message, or a \<^verbatim>\<open>TypeError\<close> of the engine.\<close>

datatype error = Error string | TypeError string

fun message :: "error \<Rightarrow> string" where
  "message (Error m) = m"
| "message (TypeError m) = m"

text \<open>Truthiness, as \<^verbatim>\<open>if (x)\<close>, \<^verbatim>\<open>!x\<close> and \<^verbatim>\<open>x || y\<close> test it.\<close>

fun truthy :: "json \<Rightarrow> bool" where
  "truthy JUndefined = False"
| "truthy JNull = False"
| "truthy (JBool b) = b"
| "truthy (JNum n) = (n \<noteq> 0)"
| "truthy (JStr s) = (s \<noteq> [])"
| "truthy (JArr xs) = True"
| "truthy (JObj kvs) = True"

definition or_else :: "json \<Rightarrow> json \<Rightarrow> json" where
  "or_else a b = (if truthy a then a else b)"

fun nullish :: "json \<Rightarrow> bool" where
  "nullish JUndefined = True"
| "nullish JNull = True"
| "nullish v = False"

text \<open>
  \<^verbatim>\<open>x.k\<close> on a value that is neither \<^verbatim>\<open>null\<close> nor \<^verbatim>\<open>undefined\<close>, for the names the
  program reads (none of them is a built-in property of strings, numbers or arrays):
  an object yields its own property, every other value yields \<^verbatim>\<open>undefined\<close>.
\<close>

fun get_prop :: "json \<Rightarrow> string \<Rightarrow> json" where
  "get_prop (JObj kvs) k = (case map_of kvs k of Some v \<Rightarrow> v | None \<Rightarrow> JUndefined)"
| "get_prop v k = JUndefined"

text \<open>\<^verbatim>\<open>x?.k\<close>: \<^verbatim>\<open>undefined\<close> when \<^verbatim>\<open>x\<close> is nullish.\<close>

definition opt_prop :: "json \<Rightarrow> string \<Rightarrow> json" where
  "opt_prop v k = (if nullish v then JUndefined else get_prop v k)"

section \<open>Strings and the four regular expressions\<close>

text \<open>
  Case folding of a regular expression with the \<^verbatim>\<open>i\<close> flag. The patterns of the program
  are ASCII; a character at or above 128 never folds to an ASCII one, so folding the
  ASCII letters is all that a comparison with a pattern character needs.
\<close>

definition canonicalize :: "char \<Rightarrow> char" where
  "canonicalize c =
     (case map_of (zip ''abcdefghijklmnopqrstuvwxyz'' ''ABCDEFGHIJKLMNOPQRSTUVWXYZ'') c of
        Some u \<Rightarrow> u
      | None \<Rightarrow> c)"

definition same_char :: "bool \<Rightarrow> char \<Rightarrow> char \<Rightarrow> bool" where
  "same_char ci c p = (if ci then canonicalize c = canonicalize p else c = p)"

text \<open>
  A literal of a pattern at the start of a string, with or without case folding: the
  text it matched and the rest of the string.
\<close>

fun strip_lit :: "bool \<Rightarrow> string \<Rightarrow> string \<Rightarrow> (string \<times> string) option" where
  "strip_lit ci [] s = Some ([], s)"
| "strip_lit ci (p # ps) [] = None"
| "strip_lit ci (p # ps) (c # cs) =
     (if same_char ci c p
      then (case strip_lit ci ps cs of None \<Rightarrow> None | Some (m, r) \<Rightarrow> Some (c # m, r))
      else None)"

text \<open>\<^verbatim>\<open>\s\<close> on the code points below 256: tab, line feed, vertical tab, form feed,
  carriage return, space and no-break space.\<close>

definition is_space :: "char \<Rightarrow> bool" where
  "is_space c = (c \<in> set [CHR 0x09, CHR 0x0A, CHR 0x0B, CHR 0x0C, CHR 0x0D, CHR 0x20, CHR 0xA0])"

definition quote :: char where
  "quote = CHR 0x22"

text \<open>The class \<^verbatim>\<open>[^\s"'<>]\<close>.\<close>

definition url_char :: "char \<Rightarrow> bool" where
  "url_char c = (if is_space c then False else c \<notin> set [quote, CHR 0x27, CHR ''<'', CHR ''>''])"

text \<open>
  The result of \<^verbatim>\<open>String.prototype.match\<close>: \<^verbatim>\<open>null\<close> is \<open>None\<close>; without the \<^verbatim>\<open>g\<close> flag
  the array holds the matched text and the groups, with it the array holds every match.
\<close>

type_synonym regex = "string \<Rightarrow> string list option"

text \<open>\<^verbatim>\<open>a[i]\<close> on an array of strings, \<^verbatim>\<open>undefined\<close> out of range.\<close>

definition at_index :: "string list \<Rightarrow> nat \<Rightarrow> string option" where
  "at_index a i = (if i < length a then Some (a ! i) else None)"

text \<open>
  \<^verbatim>\<open>href="([^"]+)"\<close> at the start of a string: the matched text and the group. The class
  cannot run over a quote, so the group is the longest run of non-quotes, it is not
  empty, and a quote follows. The flag says whether \<^verbatim>\<open>href\<close> is compared with case
  folding.
\<close>

definition href_at :: "bool \<Rightarrow> string \<Rightarrow> (string \<times> string) option" where
  "href_at ci s =
     (case strip_lit ci (''href='' @ [quote]) s of
        None \<Rightarrow> None
      | Some (key, r) \<Rightarrow>
          (let g = takeWhile (\<lambda>c. c \<noteq> quote) r; rest = dropWhile (\<lambda>c. c \<noteq> quote) r
           in if g \<noteq> [] \<and> rest \<noteq> [] then Some (key @ g @ [quote], g) else None))"

text \<open>The leftmost position at which a pattern matches.\<close>

fun leftmost :: "(string \<Rightarrow> 'a option) \<Rightarrow> string \<Rightarrow> 'a option" where
  "leftmost m [] = m []"
| "leftmost m (c # cs) = (case m (c # cs) of Some r \<Rightarrow> Some r | None \<Rightarrow> leftmost m cs)"

text \<open>\<^verbatim>\<open>/href="([^"]+)"/\<close>\<close>

definition href_regex :: regex where
  "href_regex body = (case leftmost (href_at False) body of
       None \<Rightarrow> None | Some (full, g) \<Rightarrow> Some [full, g])"

text \<open>
  \<^verbatim>\<open>/Download at:\s*<a[^>]*href="([^"]+)"/i\<close> at the start of a string. \<^verbatim>\<open>\s*\<close> takes all
  the white space (a \<^verbatim>\<open><\<close> must follow). \<^verbatim>\<open>[^>]*\<close> is greedy: it first takes the whole
  run up to the next \<^verbatim>\<open>>\<close> and gives characters back one at a time until the rest
  matches, which \<open>backtrack\<close> does from \<open>k\<close> characters down to none.
\<close>

fun backtrack :: "nat \<Rightarrow> string \<Rightarrow> (string \<times> string) option" where
  "backtrack 0 r = href_at True r"
| "backtrack (Suc k) r =
     (case href_at True (drop (Suc k) r) of
        Some (full, g) \<Rightarrow> Some (take (Suc k) r @ full, g)
      | None \<Rightarrow> backtrack k r)"

definition download_at :: "string \<Rightarrow> (string \<times> string) option" where
  "download_at s =
     (case strip_lit True ''Download at:'' s of
        None \<Rightarrow> None
      | Some (label, r1) \<Rightarrow>
          (let ws = takeWhile is_space r1 in
           case strip_lit True ''<a'' (dropWhile is_space r1) of
             None \<Rightarrow> None
           | Some (tag, r3) \<Rightarrow>
               (case backtrack (length (takeWhile (\<lambda>c. c \<noteq> CHR ''>'') r3)) r3 of
                  None \<Rightarrow> None
                | Some (full, g) \<Rightarrow> Some (label @ ws @ tag @ full, g))))"

definition download_at_regex :: regex where
  "download_at_regex body = (case leftmost download_at body of
       None \<Rightarrow> None | Some (full, g) \<Rightarrow> Some [full, g])"

text \<open>
  Does the literal \<open>lit\<close> (compared with case folding) stand somewhere in the run, behind
  at least one character and before at least \<open>after\<close> more characters of the run?
\<close>

fun occurs_from :: "string \<Rightarrow> nat \<Rightarrow> string \<Rightarrow> bool" where
  "occurs_from lit after [] = False"
| "occurs_from lit after (c # cs) =
     (case strip_lit True lit (c # cs) of
        Some (m, r) \<Rightarrow> if after \<le> length r then True else occurs_from lit after cs
      | None \<Rightarrow> occurs_from lit after cs)"

definition literal_inside :: "string \<Rightarrow> nat \<Rightarrow> string \<Rightarrow> bool" where
  "literal_inside lit after run = (case run of [] \<Rightarrow> False | c # cs \<Rightarrow> occurs_from lit after cs)"

text \<open>
  \<^verbatim>\<open>https:\/\/manage\.fleetone\.com\/[^\s"'<>]+getJobFile[^\s"'<>]+\<close> at the start of a
  string. The last class is greedy and nothing follows it, so a match always runs to the
  end of the run of URL characters.
\<close>

definition getjobfile_at :: "string \<Rightarrow> string option" where
  "getjobfile_at s =
     (case strip_lit True ''https://manage.fleetone.com/'' s of
        None \<Rightarrow> None
      | Some (host, r) \<Rightarrow>
          (let run = takeWhile url_char r
           in if literal_inside ''getJobFile'' 1 run then Some (host @ run) else None))"

text \<open>
  \<^verbatim>\<open>(https?:\/\/[^\s"'<>]+\.pdf[^\s"'<>]*)\<close> at the start of a string, the optional
  \<^verbatim>\<open>s\<close> tried first.
\<close>

definition pdf_tail :: "string \<Rightarrow> string \<Rightarrow> string option" where
  "pdf_tail scheme r =
     (let run = takeWhile url_char r
      in if literal_inside ''.pdf'' 0 run then Some (scheme @ run) else None)"

definition pdf_at :: "string \<Rightarrow> string option" where
  "pdf_at s =
     (case strip_lit True ''https://'' s of
        Some (scheme, r) \<Rightarrow> pdf_tail scheme r
      | None \<Rightarrow>
          (case strip_lit True ''http://'' s of
             Some (scheme, r) \<Rightarrow> pdf_tail scheme r
           | None \<Rightarrow> None))"

text \<open>
  A pattern with the \<^verbatim>\<open>g\<close> flag: every match, left to right, the search resuming behind
  the match before. \<open>skip\<close> counts the characters of the last match still to pass.
\<close>

fun scan :: "(string \<Rightarrow> string option) \<Rightarrow> nat \<Rightarrow> string \<Rightarrow> string list" where
  "scan m skip [] = []"
| "scan m (Suc k) (c # cs) = scan m k cs"
| "scan m 0 (c # cs) =
     (case m (c # cs) of
        Some t \<Rightarrow> t # scan m (length t - 1) cs
      | None \<Rightarrow> scan m 0 cs)"

definition global_regex :: "(string \<Rightarrow> string option) \<Rightarrow> regex" where
  "global_regex m body = (case scan m 0 body of [] \<Rightarrow> None | ms \<Rightarrow> Some ms)"

definition getjobfile_regex :: regex where
  "getjobfile_regex = global_regex getjobfile_at"

definition pdf_regex :: regex where
  "pdf_regex = global_regex pdf_at"

text \<open>\<^verbatim>\<open>s.replace(/&amp;/g, '&')\<close>\<close>

fun decode_amp :: "nat \<Rightarrow> string \<Rightarrow> string" where
  "decode_amp skip [] = []"
| "decode_amp (Suc k) (c # cs) = decode_amp k cs"
| "decode_amp 0 (c # cs) =
     (if prefix ''&amp;'' (c # cs) then CHR ''&'' # decode_amp 4 cs else c # decode_amp 0 cs)"

definition replace_amp :: "string \<Rightarrow> string" where
  "replace_amp s = decode_amp 0 s"

section \<open>extractDownloadUrl\<close>

definition no_body :: error where
  "no_body = Error ''No message body found in Missive response''"

definition no_url :: error where
  "no_url = Error ''No download URL found in message body''"

text \<open>
  The first part of the function: where the body is taken from. The branch is chosen by
  the shape of \<^verbatim>\<open>messageData.messages\<close> first; \<^verbatim>\<open>messages[0].body\<close> throws when the first
  element is \<^verbatim>\<open>null\<close>.
\<close>

definition locate_body :: "json \<Rightarrow> error + json" where
  "locate_body messageData =
     (if nullish messageData then Inl (TypeError ''Cannot read properties of null or undefined'')
      else case get_prop messageData ''messages'' of
        JObj kvs \<Rightarrow> Inr (or_else (get_prop (JObj kvs) ''body'') (JStr ''''))
      | JArr (m0 # ms) \<Rightarrow>
          (if nullish m0 then Inl (TypeError ''Cannot read properties of null or undefined'')
           else Inr (or_else (get_prop m0 ''body'') (JStr '''')))
      | _ \<Rightarrow>
          (if truthy (opt_prop (get_prop messageData ''message'') ''body'')
           then Inr (get_prop (get_prop messageData ''message'') ''body'')
           else if truthy (get_prop messageData ''body'') then Inr (get_prop messageData ''body'')
           else Inr (JStr '''')))"

text \<open>\<^verbatim>\<open>let url = matches[1] || matches[0]\<close>, on the non-null result of a match.\<close>

definition pick :: "string list \<Rightarrow> string" where
  "pick matches =
     (case at_index matches 1 of
        Some u \<Rightarrow> if u \<noteq> [] then u else (case at_index matches 0 of Some v \<Rightarrow> v | None \<Rightarrow> [])
      | None \<Rightarrow> (case at_index matches 0 of Some v \<Rightarrow> v | None \<Rightarrow> []))"

text \<open>The loop over the fallback patterns.\<close>

fun try_patterns :: "regex list \<Rightarrow> string \<Rightarrow> error + string" where
  "try_patterns [] body = Inl no_url"
| "try_patterns (p # ps) body =
     (case p body of
        Some matches \<Rightarrow> Inr (replace_amp (pick matches))
      | None \<Rightarrow> try_patterns ps body)"

text \<open>
  The second part, on the body that was found, with the primary pattern and the list of
  fallback patterns as parameters.
\<close>

definition extract_with :: "regex \<Rightarrow> regex list \<Rightarrow> string \<Rightarrow> error + string" where
  "extract_with primary patterns body =
     (case primary body of
        Some hrefMatch \<Rightarrow>
          (case at_index hrefMatch 1 of
             Some g \<Rightarrow> if g \<noteq> [] then Inr (replace_amp g) else try_patterns patterns body
           | None \<Rightarrow> try_patterns patterns body)
      | None \<Rightarrow> try_patterns patterns body)"

definition extract_from :: "regex \<Rightarrow> regex list \<Rightarrow> json \<Rightarrow> error + string" where
  "extract_from primary patterns messageData =
     (case locate_body messageData of
        Inl e \<Rightarrow> Inl e
      | Inr body \<Rightarrow>
          if \<not> truthy body then Inl no_body
          else (case body of
                  JStr b \<Rightarrow> extract_with primary patterns b
                | _ \<Rightarrow> Inl (TypeError ''body.match is not a function'')))"










definition fallback_patterns :: "regex list" where
  "fallback_patterns = [download_at_regex, getjobfile_regex, pdf_regex]"

definition extractDownloadUrl :: "json \<Rightarrow> error + string" where
  "extractDownloadUrl messageData = extract_from href_regex fallback_patterns messageData"

section \<open>Configuration and routing\<close>

text \<open>
  The constants read from the environment at start-up. \<^verbatim>\<open>MAX_RETRIES\<close> is
  \<^verbatim>\<open>parseInt(process.env.MAX_RETRIES || '3')\<close>: any integer, negative ones included (a text
  that is no number gives \<^verbatim>\<open>NaN\<close>, which is outside this model). A variable of the
  environment is a string or absent.
\<close>

record config =
  MAX_RETRIES :: int
  MISSIVE_API_KEY :: "string option"
  FUELREPORTWEBHOOK :: "string option"
  EFSREPORTWEBHOOK :: "string option"

definition RETRY_DELAY :: nat where
  "RETRY_DELAY = 2000"

text \<open>\<^verbatim>\<open>!v\<close> on such a variable is false for a string that is not empty, and only then.\<close>

definition configured :: "string option \<Rightarrow> bool" where
  "configured v = (case v of None \<Rightarrow> False | Some s \<Rightarrow> s \<noteq> [])"

text \<open>\<^verbatim>\<open>toLowerCase\<close> on the code points below 256.\<close>

definition to_lower :: "char \<Rightarrow> char" where
  "to_lower c =
     (case map_of (zip (''ABCDEFGHIJKLMNOPQRSTUVWXYZ'' @
            [CHR 0xC0, CHR 0xC1, CHR 0xC2, CHR 0xC3, CHR 0xC4, CHR 0xC5, CHR 0xC6, CHR 0xC7,
             CHR 0xC8, CHR 0xC9, CHR 0xCA, CHR 0xCB, CHR 0xCC, CHR 0xCD, CHR 0xCE, CHR 0xCF,
             CHR 0xD0, CHR 0xD1, CHR 0xD2, CHR 0xD3, CHR 0xD4, CHR 0xD5, CHR 0xD6, CHR 0xD8,
             CHR 0xD9, CHR 0xDA, CHR 0xDB, CHR 0xDC, CHR 0xDD, CHR 0xDE])
          (''abcdefghijklmnopqrstuvwxyz'' @
            [CHR 0xE0, CHR 0xE1, CHR 0xE2, CHR 0xE3, CHR 0xE4, CHR 0xE5, CHR 0xE6, CHR 0xE7,
             CHR 0xE8, CHR 0xE9, CHR 0xEA, CHR 0xEB, CHR 0xEC, CHR 0xED, CHR 0xEE, CHR 0xEF,
             CHR 0xF0, CHR 0xF1, CHR 0xF2, CHR 0xF3, CHR 0xF4, CHR 0xF5, CHR 0xF6, CHR 0xF8,
             CHR 0xF9, CHR 0xFA, CHR 0xFB, CHR 0xFC, CHR 0xFD, CHR 0xFE])) c of
        Some l \<Rightarrow> l
      | None \<Rightarrow> c)"

definition toLowerCase :: "string \<Rightarrow> string" where
  "toLowerCase s = map to_lower s"

text \<open>\<^verbatim>\<open>s.includes(m)\<close>\<close>

fun str_includes :: "string \<Rightarrow> string \<Rightarrow> bool" where
  "str_includes [] m = (m = [])"
| "str_includes (c # cs) m = (if prefix m (c # cs) then True else str_includes cs m)"

definition fuel_error :: error where
  "fuel_error = Error ''FUELREPORTWEBHOOK environment variable is not configured''"

definition efs_error :: error where
  "efs_error = Error ''EFSREPORTWEBHOOK environment variable is not configured''"

text \<open>
  The result is the pair \<^verbatim>\<open>{ webhookUrl, reportType }\<close>. The test \<^verbatim>\<open>!webhookUrl\<close> holds for a
  variable that is absent and for one that is the empty string.
\<close>

definition determineWebhookConfig :: "config \<Rightarrow> string \<Rightarrow> error + (string \<times> string)" where
  "determineWebhookConfig cfg fileName =
     (let (webhookUrl, reportType) =
            (if str_includes (toLowerCase fileName) ''grandtotalreport''
             then (FUELREPORTWEBHOOK cfg, ''FuelReport'')
             else (EFSREPORTWEBHOOK cfg, ''EFSReport''));
          notConfigured = (if reportType = ''FuelReport'' then fuel_error else efs_error)
      in case webhookUrl of
           None \<Rightarrow> Inl notConfigured
         | Some u \<Rightarrow> if u = [] then Inl notConfigured else Inr (u, reportType))"

section \<open>The world of one pipeline run\<close>

text \<open>
  A file is named by its place: inside the working directory of the run (by its name
  there) or somewhere else (by its path).
\<close>

datatype path = InTemp string | Outside string

text \<open>What the run does to the outside, in the order in which it does it.\<close>

datatype event =
    Respond nat json
  | RequestWebhookUrl json
  | ApiGet json
  | Launch
  | Mkdir
  | NewContext
  | NewPage
  | DownloadAttempt nat string
  | Sleep nat
  | Reload
  | ReadFile path
  | Post string string json json string
  | Caught error
  | Unlink path
  | Readdir
  | Rmdir
  | ClosePage
  | CloseContext

text \<open>
  The outcomes of the operations the program does not decide itself: the message API,
  the browser, the file system and the destination endpoint. An attempt is numbered from
  0. \<open>attempt_files k\<close> are the files that download attempt \<open>k\<close> leaves in the working
  directory.
\<close>

record outcomes =
  api_get :: "json \<Rightarrow> error + json"
  launch_error :: "error option"
  mkdir_error :: "error option"
  newContext_error :: "error option"
  newPage_error :: "error option"
  attempt_files :: "nat \<Rightarrow> string list"
  download_attempt :: "nat \<Rightarrow> error + (path \<times> string)"
  read_error :: "error option"
  post_attempt :: "string \<Rightarrow> nat \<Rightarrow> error + nat"
  unlink_error :: "path \<Rightarrow> error option"
  readdir_error :: "error option"
  rmdir_error :: "error option"
  page_close_error :: "error option"
  context_close_error :: "error option"

record world =
  browser :: bool
  tmp_exists :: bool
  tmp_files :: "string list"
  other_files :: "string list"
  page_open :: bool
  context_open :: bool
  trace :: "event list"

definition emit :: "event \<Rightarrow> world \<Rightarrow> world" where
  "emit e w = w\<lparr>trace := trace w @ [e]\<rparr>"

text \<open>The variables of \<^verbatim>\<open>processDownloadAsync\<close> that its \<^verbatim>\<open>finally\<close> block reads.\<close>

record locals =
  l_context :: bool
  l_page :: bool
  l_tempDir :: bool
  l_downloadPath :: "path option"

definition no_locals :: locals where
  "no_locals = \<lparr>l_context = False, l_page = False, l_tempDir = False, l_downloadPath = None\<rparr>"

subsection \<open>Files\<close>

definition file_exists :: "path \<Rightarrow> world \<Rightarrow> bool" where
  "file_exists p w =
     (case p of InTemp n \<Rightarrow> tmp_exists w \<and> n \<in> set (tmp_files w)
              | Outside q \<Rightarrow> q \<in> set (other_files w))"

definition store_file :: "path \<Rightarrow> world \<Rightarrow> world" where
  "store_file p w =
     (case p of InTemp n \<Rightarrow> w\<lparr>tmp_files := List.insert n (tmp_files w)\<rparr>
              | Outside q \<Rightarrow> w\<lparr>other_files := List.insert q (other_files w)\<rparr>)"

definition remove_file :: "path \<Rightarrow> world \<Rightarrow> world" where
  "remove_file p w =
     (case p of InTemp n \<Rightarrow> w\<lparr>tmp_files := removeAll n (tmp_files w)\<rparr>
              | Outside q \<Rightarrow> w\<lparr>other_files := removeAll q (other_files w)\<rparr>)"

text \<open>\<^verbatim>\<open>fs.unlink\<close>: fails on a file that is not there, or when the system refuses.\<close>

definition fs_unlink :: "outcomes \<Rightarrow> path \<Rightarrow> world \<Rightarrow> error option \<times> world" where
  "fs_unlink orc p w =
     (let w1 = emit (Unlink p) w
      in if \<not> file_exists p w1 then (Some (Error ''ENOENT''), w1)
         else (case unlink_error orc p of
                 Some e \<Rightarrow> (Some e, w1)
               | None \<Rightarrow> (None, remove_file p w1)))"

section \<open>downloadWithRetry\<close>

function downloadWithRetry ::
  "config \<Rightarrow> outcomes \<Rightarrow> string \<Rightarrow> nat \<Rightarrow> world \<Rightarrow> (error + (path \<times> string)) \<times> world" where
  "downloadWithRetry cfg orc url retries w =
     (let w1 = emit (DownloadAttempt retries url) w;
          w2 = fold (\<lambda>f. store_file (InTemp f)) (attempt_files orc retries) w1
      in case download_attempt orc retries of
           Inr (downloadPath, fileName) \<Rightarrow> (Inr (downloadPath, fileName), store_file downloadPath w2)
         | Inl e \<Rightarrow>
             if int retries < MAX_RETRIES cfg
             then downloadWithRetry cfg orc url (retries + 1) (emit Reload (emit (Sleep RETRY_DELAY) w2))
             else (Inl e, w2))"
  by pat_completeness auto
termination
  by (relation "measure (\<lambda>(cfg, orc, url, retries, w). nat (MAX_RETRIES cfg - int retries))") auto

section \<open>The relay loop\<close>

text \<open>A number in a template string, for the integers.\<close>

function digits :: "nat \<Rightarrow> string" where
  "digits n = (if n < 10 then [''0123456789'' ! n] else digits (n div 10) @ [''0123456789'' ! (n mod 10)])"
  by pat_completeness auto
termination
  by (relation "measure (\<lambda>n. n)") auto

definition show_int :: "int \<Rightarrow> string" where
  "show_int i = (if i < 0 then CHR ''-'' # digits (nat (- i)) else digits (nat i))"

text \<open>
  The \<^verbatim>\<open>while (webhookRetries <= MAX_RETRIES)\<close> loop of \<^verbatim>\<open>processDownloadAsync\<close>. The
  result is \<^verbatim>\<open>webhookResponse\<close> behind the loop: the status, or \<open>None\<close> for \<^verbatim>\<open>undefined\<close>
  when the body of the loop never ran.
\<close>

record form =
  f_url :: string
  f_type :: string
  f_conversationId :: json
  f_messageId :: json
  f_filename :: string

definition post_event :: "form \<Rightarrow> event" where
  "post_event f = Post (f_url f) (f_type f) (f_conversationId f) (f_messageId f) (f_filename f)"

function webhook_loop ::
  "config \<Rightarrow> outcomes \<Rightarrow> form \<Rightarrow> nat \<Rightarrow> world \<Rightarrow> (error + nat option) \<times> world" where
  "webhook_loop cfg orc f webhookRetries w =
     (if int webhookRetries \<le> MAX_RETRIES cfg then
        (let w1 = emit (post_event f) w
         in case post_attempt orc (f_url f) webhookRetries of
              Inr status \<Rightarrow> (Inr (Some status), w1)
            | Inl webhookError \<Rightarrow>
                if int (webhookRetries + 1) > MAX_RETRIES cfg
                then (Inl (Error (''Failed to send to webhook after '' @ show_int (MAX_RETRIES cfg)
                                  @ '' attempts: '' @ message webhookError)), w1)
                else webhook_loop cfg orc f (webhookRetries + 1) (emit (Sleep RETRY_DELAY) w1))
      else (Inr None, w))"
  by pat_completeness auto
termination
  by (relation "measure (\<lambda>(cfg, orc, f, webhookRetries, w). nat (MAX_RETRIES cfg + 1 - int webhookRetries))") auto

section \<open>processDownloadAsync\<close>

subsection \<open>The finally block\<close>

text \<open>The loop over the listing of the directory: every failure is caught and logged.\<close>

fun unlink_all :: "outcomes \<Rightarrow> string list \<Rightarrow> world \<Rightarrow> world" where
  "unlink_all orc [] w = w"
| "unlink_all orc (file # files) w = unlink_all orc files (snd (fs_unlink orc (InTemp file) w))"

text \<open>
  The two guarded parts: the downloaded file, then the directory. \<^verbatim>\<open>readdir\<close> fails on a
  directory that is not there, \<^verbatim>\<open>rmdir\<close> on one that is not empty; both failures end the
  \<^verbatim>\<open>try\<close> around them and are logged.
\<close>

definition cleanup_files :: "outcomes \<Rightarrow> locals \<Rightarrow> world \<Rightarrow> world" where
  "cleanup_files orc L w =
     (let w1 = (case l_downloadPath L of None \<Rightarrow> w | Some p \<Rightarrow> snd (fs_unlink orc p w))
      in if \<not> l_tempDir L then w1
         else (let w2 = emit Readdir w1
               in if \<not> tmp_exists w2 then w2
                  else (case readdir_error orc of
                          Some e \<Rightarrow> w2
                        | None \<Rightarrow>
                            (let w3 = unlink_all orc (tmp_files w2) w2;
                                 w4 = emit Rmdir w3
                             in if tmp_files w4 \<noteq> [] then w4
                                else (case rmdir_error orc of
                                        Some e \<Rightarrow> w4
                                      | None \<Rightarrow> w4\<lparr>tmp_exists := False\<rparr>)))))"

text \<open>
  The two calls that are not guarded: \<^verbatim>\<open>page.close()\<close>, then \<^verbatim>\<open>context.close()\<close>, which
  closes the pages of the context with it. An error of either leaves the block at once.
\<close>

definition close_context :: "outcomes \<Rightarrow> locals \<Rightarrow> world \<Rightarrow> error option \<times> world" where
  "close_context orc L w =
     (if l_context L then
        (let w1 = emit CloseContext w
         in case context_close_error orc of
              Some e \<Rightarrow> (Some e, w1)
            | None \<Rightarrow> (None, w1\<lparr>context_open := False, page_open := False\<rparr>))
      else (None, w))"

definition close_page :: "outcomes \<Rightarrow> locals \<Rightarrow> world \<Rightarrow> error option \<times> world" where
  "close_page orc L w =
     (if l_page L then
        (let w1 = emit ClosePage w
         in case page_close_error orc of
              Some e \<Rightarrow> (Some e, w1)
            | None \<Rightarrow> close_context orc L (w1\<lparr>page_open := False\<rparr>))
      else close_context orc L w)"

definition finally_block :: "outcomes \<Rightarrow> locals \<Rightarrow> world \<Rightarrow> error option \<times> world" where
  "finally_block orc L w = close_page orc L (cleanup_files orc L w)"

subsection \<open>fetchMissiveMessage\<close>

text \<open>
  The logging of the response inside the \<^verbatim>\<open>try\<close> of \<^verbatim>\<open>fetchMissiveMessage\<close> can throw:
  \<^verbatim>\<open>body.substring\<close> on a body that is no string, \<^verbatim>\<open>Object.keys\<close> on \<^verbatim>\<open>null\<close>.
\<close>

definition log_structure :: "json \<Rightarrow> error option" where
  "log_structure data =
     (if truthy (opt_prop data ''messages'') then
        (case get_prop data ''messages'' of
           JObj kvs \<Rightarrow>
             (let b = get_prop (JObj kvs) ''body''
              in if truthy b
                 then (case b of JStr s \<Rightarrow> None
                               | _ \<Rightarrow> Some (TypeError ''substring is not a function''))
                 else None)
         | _ \<Rightarrow> None)
      else if nullish data then Some (TypeError ''Cannot convert undefined or null to object'')
      else None)"

definition fetchMissiveMessage ::
  "config \<Rightarrow> outcomes \<Rightarrow> json \<Rightarrow> world \<Rightarrow> (error + json) \<times> world" where
  "fetchMissiveMessage cfg orc messageId w =
     (if \<not> configured (MISSIVE_API_KEY cfg) then (Inl (Error ''MISSIVE_API_KEY is not configured''), w)
      else (let w1 = emit (ApiGet messageId) w
            in case api_get orc messageId of
                 Inl e \<Rightarrow> (Inl (Error (''Failed to fetch message from Missive: '' @ message e)), w1)
               | Inr data \<Rightarrow>
                   (case log_structure data of
                      Some e \<Rightarrow> (Inl (Error (''Failed to fetch message from Missive: '' @ message e)), w1)
                    | None \<Rightarrow> (Inr data, w1))))"

subsection \<open>The try block\<close>

text \<open>
  The block is cut into its stages, last stage first. Each stage yields the error that
  left the block, if any, the variables as they stand at that point, and the world.
  The variable \<^verbatim>\<open>webhookUrl\<close> first holds the value of the request; the only read of that
  value is a log line (the event \<open>RequestWebhookUrl\<close>), and the assignment from
  \<^verbatim>\<open>determineWebhookConfig\<close> replaces it before the form is posted.
\<close>

definition relay_stage ::
  "config \<Rightarrow> outcomes \<Rightarrow> locals \<Rightarrow> json \<Rightarrow> json \<Rightarrow> path \<Rightarrow> string \<Rightarrow> world
     \<Rightarrow> error option \<times> locals \<times> world" where
  "relay_stage cfg orc L messageId conversationId downloadPath fileName w =
     (case determineWebhookConfig cfg fileName of
        Inl e \<Rightarrow> (Some e, L, w)
      | Inr (webhookUrl, reportType) \<Rightarrow>
          (let w1 = emit (ReadFile downloadPath) w
           in case read_error orc of
                Some e \<Rightarrow> (Some e, L, w1)
              | None \<Rightarrow>
                  (case webhook_loop cfg orc
                          \<lparr>f_url = webhookUrl, f_type = reportType,
                           f_conversationId = or_else conversationId (JStr ''''),
                           f_messageId = messageId, f_filename = fileName\<rparr> 0 w1 of
                     (Inl e, w2) \<Rightarrow> (Some e, L, w2)
                   | (Inr None, w2) \<Rightarrow>
                       (Some (TypeError ''Cannot read properties of undefined (reading status)''), L, w2)
                   | (Inr (Some status), w2) \<Rightarrow> (None, L, w2))))"

definition download_stage ::
  "config \<Rightarrow> outcomes \<Rightarrow> locals \<Rightarrow> json \<Rightarrow> json \<Rightarrow> string \<Rightarrow> world
     \<Rightarrow> error option \<times> locals \<times> world" where
  "download_stage cfg orc L messageId conversationId downloadUrl w =
     (case downloadWithRetry cfg orc downloadUrl 0 w of
        (Inl e, w1) \<Rightarrow> (Some e, L, w1)
      | (Inr (downloadPath, fileName), w1) \<Rightarrow>
          relay_stage cfg orc (L\<lparr>l_downloadPath := Some downloadPath\<rparr>)
            messageId conversationId downloadPath fileName w1)"

text \<open>\<^verbatim>\<open>initBrowser\<close>, as one run sees it.\<close>

definition initBrowser :: "outcomes \<Rightarrow> world \<Rightarrow> error option \<times> world" where
  "initBrowser orc w =
     (if \<not> browser w then
        (let w1 = emit Launch w
         in case launch_error orc of
              Some e \<Rightarrow> (Some e, w1)
            | None \<Rightarrow> (None, w1\<lparr>browser := True\<rparr>))
      else (None, w))"

definition page_stage ::
  "config \<Rightarrow> outcomes \<Rightarrow> locals \<Rightarrow> json \<Rightarrow> json \<Rightarrow> string \<Rightarrow> world
     \<Rightarrow> error option \<times> locals \<times> world" where
  "page_stage cfg orc L messageId conversationId downloadUrl w =
     (let w1 = emit NewContext w
      in case newContext_error orc of
           Some e \<Rightarrow> (Some e, L, w1)
         | None \<Rightarrow>
             (let L1 = L\<lparr>l_context := True\<rparr>;
                  w2 = emit NewPage (w1\<lparr>context_open := True\<rparr>)
              in case newPage_error orc of
                   Some e \<Rightarrow> (Some e, L1, w2)
                 | None \<Rightarrow>
                     download_stage cfg orc (L1\<lparr>l_page := True\<rparr>) messageId conversationId
                       downloadUrl (w2\<lparr>page_open := True\<rparr>)))"

definition browser_stage ::
  "config \<Rightarrow> outcomes \<Rightarrow> json \<Rightarrow> json \<Rightarrow> string \<Rightarrow> world
     \<Rightarrow> error option \<times> locals \<times> world" where
  "browser_stage cfg orc messageId conversationId downloadUrl w =
     (case initBrowser orc w of
        (Some e, w1) \<Rightarrow> (Some e, no_locals, w1)
      | (None, w1) \<Rightarrow>
          (let L = no_locals\<lparr>l_tempDir := True\<rparr>;
               w2 = emit Mkdir w1
           in case mkdir_error orc of
                Some e \<Rightarrow> (Some e, L, w2)
              | None \<Rightarrow> page_stage cfg orc L messageId conversationId downloadUrl
                          (w2\<lparr>tmp_exists := True\<rparr>)))"

definition resolve_stage ::
  "config \<Rightarrow> outcomes \<Rightarrow> json \<Rightarrow> json \<Rightarrow> world \<Rightarrow> error option \<times> locals \<times> world" where
  "resolve_stage cfg orc messageId conversationId w =
     (case fetchMissiveMessage cfg orc messageId w of
        (Inl e, w1) \<Rightarrow> (Some e, no_locals, w1)
      | (Inr messageData, w1) \<Rightarrow>
          (let fromApi = opt_prop (opt_prop (opt_prop messageData ''messages'') ''conversation'') ''id'';
               conversationId' = (if truthy fromApi then fromApi else conversationId)
           in case extractDownloadUrl messageData of
                Inl e \<Rightarrow> (Some e, no_locals, w1)
              | Inr downloadUrl \<Rightarrow> browser_stage cfg orc messageId conversationId' downloadUrl w1))"

text \<open>The value that \<^verbatim>\<open>webhookUrl\<close> holds at the start: that of the request, if it is truthy.\<close>

definition provided_webhookUrl :: "json \<Rightarrow> json" where
  "provided_webhookUrl requestData =
     (if truthy (get_prop requestData ''webhookUrl'')
      then get_prop requestData ''webhookUrl'' else JUndefined)"

definition try_block ::
  "config \<Rightarrow> outcomes \<Rightarrow> json \<Rightarrow> json \<Rightarrow> json \<Rightarrow> world \<Rightarrow> error option \<times> locals \<times> world" where
  "try_block cfg orc requestData messageId conversationId w =
     (let webhookUrl = provided_webhookUrl requestData
      in resolve_stage cfg orc messageId conversationId (emit (RequestWebhookUrl webhookUrl) w))"

text \<open>
  The whole function: the \<^verbatim>\<open>try\<close> block, the \<^verbatim>\<open>catch\<close> that logs, the \<^verbatim>\<open>finally\<close> block.
  The promise is rejected only when the \<^verbatim>\<open>finally\<close> block throws.
\<close>

definition catch_finally ::
  "outcomes \<Rightarrow> error option \<times> locals \<times> world \<Rightarrow> (error + unit) \<times> world" where
  "catch_finally orc tried =
     (case tried of
        (thrown, L, w1) \<Rightarrow>
          (let w2 = (case thrown of Some e \<Rightarrow> emit (Caught e) w1 | None \<Rightarrow> w1)
           in case finally_block orc L w2 of
                (Some e, w3) \<Rightarrow> (Inl e, w3)
              | (None, w3) \<Rightarrow> (Inr (), w3)))"

definition processDownloadAsync ::
  "config \<Rightarrow> outcomes \<Rightarrow> json \<Rightarrow> json \<Rightarrow> json \<Rightarrow> world \<Rightarrow> (error + unit) \<times> world" where
  "processDownloadAsync cfg orc requestData messageId conversationId w =
     catch_finally orc (try_block cfg orc requestData messageId conversationId w)"

section \<open>The route /processreport\<close>

definition first_truthy :: "json \<Rightarrow> json \<Rightarrow> json" where
  "first_truthy a b = (if truthy a then a else if truthy b then b else JUndefined)"

definition find_messageId :: "json \<Rightarrow> json" where
  "find_messageId requestData =
     first_truthy (opt_prop (get_prop requestData ''latest_message'') ''id'')
                  (opt_prop (opt_prop (get_prop requestData ''body'') ''latest_message'') ''id'')"

definition find_conversationId :: "json \<Rightarrow> json" where
  "find_conversationId requestData =
     first_truthy (opt_prop (get_prop requestData ''conversation'') ''id'')
                  (opt_prop (opt_prop (get_prop requestData ''body'') ''conversation'') ''id'')"

definition invalid_format :: json where
  "invalid_format = JObj [(''error'', JStr ''Invalid request format''),
                          (''details'', JStr ''Request body is empty or invalid'')]"

definition missing_id :: json where
  "missing_id = JObj [(''error'', JStr ''Missing message ID''),
                      (''details'', JStr ''Could not find message ID in request'')]"

definition acknowledgement :: "json \<Rightarrow> json \<Rightarrow> string \<Rightarrow> json" where
  "acknowledgement messageId conversationId now =
     JObj [(''success'', JBool True),
           (''message'', JStr ''Webhook received, processing download''),
           (''messageId'', messageId),
           (''conversationId'', or_else conversationId JNull),
           (''timestamp'', JStr now)]"

text \<open>\<^verbatim>\<open>Array.isArray(req.body) ? req.body[0] : req.body\<close>\<close>

definition request_data :: "json \<Rightarrow> json" where
  "request_data body = (case body of JArr [] \<Rightarrow> JUndefined | JArr (x # xs) \<Rightarrow> x | _ \<Rightarrow> body)"

text \<open>
  The handler, on \<^verbatim>\<open>req.body\<close> and the time of the clock. The rejection of the promise of
  \<^verbatim>\<open>processDownloadAsync\<close> is logged by the \<^verbatim>\<open>catch\<close> attached to it.
\<close>

definition processreport :: "config \<Rightarrow> outcomes \<Rightarrow> string \<Rightarrow> json \<Rightarrow> world \<Rightarrow> world" where
  "processreport cfg orc now body w =
     (let requestData = request_data body
      in if \<not> truthy requestData then emit (Respond 400 invalid_format) w
         else (let messageId = find_messageId requestData;
                   conversationId = find_conversationId requestData
               in if \<not> truthy messageId then emit (Respond 400 missing_id) w
                  else (case processDownloadAsync cfg orc requestData messageId conversationId
                               (emit (Respond 200 (acknowledgement messageId conversationId now)) w) of
                          (Inl e, w1) \<Rightarrow> emit (Caught e) w1
                        | (Inr u, w1) \<Rightarrow> w1)))"

section \<open>initBrowser under interleaving\<close>

text \<open>
  \<^verbatim>\<open>initBrowser\<close> is an async function: it runs without interruption up to its \<^verbatim>\<open>await\<close>
  and again behind it. A call is therefore at one of three points: not started, waiting
  for the launch it started (of the instance with the given number), or returned with
  an instance. The shared state is \<^verbatim>\<open>globalBrowser\<close> and the number of launches so far.
\<close>

datatype call = Ready | Launching nat | Returned nat

record shared =
  globalBrowser :: "nat option"
  launches :: nat

fun init_step :: "shared \<Rightarrow> call \<Rightarrow> shared \<times> call" where
  "init_step s Ready =
     (case globalBrowser s of
        None \<Rightarrow> (s\<lparr>launches := launches s + 1\<rparr>, Launching (launches s + 1))
      | Some b \<Rightarrow> (s, Returned b))"
| "init_step s (Launching b) = (s\<lparr>globalBrowser := Some b\<rparr>, Returned b)"
| "init_step s (Returned b) = (s, Returned b)"

text \<open>A schedule names, step by step, the call that runs next.\<close>

fun run_schedule :: "nat list \<Rightarrow> shared \<times> call list \<Rightarrow> shared \<times> call list" where
  "run_schedule [] sc = sc"
| "run_schedule (i # is) (s, calls) =
     (if i < length calls
      then (case init_step s (calls ! i) of (s', c') \<Rightarrow> run_schedule is (s', calls[i := c']))
      else run_schedule is (s, calls))"

definition initial :: "shared" where
  "initial = \<lparr>globalBrowser = None, launches = 0\<rparr>"

section \<open>Observations on a trace\<close>

fun is_attempt :: "event \<Rightarrow> bool" where
  "is_attempt (DownloadAttempt k url) = True"
| "is_attempt e = False"

fun is_post :: "event \<Rightarrow> bool" where
  "is_post (Post url type conversationId messageId filename) = True"
| "is_post e = False"

fun is_respond :: "event \<Rightarrow> bool" where
  "is_respond (Respond status body) = True"
| "is_respond e = False"

text \<open>The number of download attempts, and of uploads, that a world has seen.\<close>

definition attempts :: "world \<Rightarrow> nat" where
  "attempts w = length (filter is_attempt (trace w))"

definition posts :: "world \<Rightarrow> event list" where
  "posts w = filter is_post (trace w)"

text \<open>A world before any run: no working directory, no page, no context.\<close>

definition fresh :: "world \<Rightarrow> bool" where
  "fresh w = (\<not> tmp_exists w \<and> tmp_files w = [] \<and> \<not> page_open w \<and> \<not> context_open w)"

text \<open>Nothing is left of a run: the directory with its files is gone, page and context are closed.\<close>

definition released :: "world \<Rightarrow> bool" where
  "released w = (\<not> tmp_exists w \<and> tmp_files w = [] \<and> \<not> page_open w \<and> \<not> context_open w)"

section \<open>Concrete runs\<close>

text \<open>
  A configuration with the default retry count and both endpoints set, a world before
  any run, and outcomes in which the message API is unreachable, every download attempt
  times out, every upload is refused, and the browser and the file system never fail.
\<close>

definition default_config :: config where
  "default_config = \<lparr>MAX_RETRIES = 3, MISSIVE_API_KEY = Some ''key'',
     FUELREPORTWEBHOOK = Some ''https://fuel.example/hook'',
     EFSREPORTWEBHOOK = Some ''https://efs.example/hook''\<rparr>"

definition empty_world :: world where
  "empty_world = \<lparr>browser = False, tmp_exists = False, tmp_files = [], other_files = [],
     page_open = False, context_open = False, trace = []\<rparr>"

definition timeout_error :: error where
  "timeout_error = Error ''Timeout 30000ms exceeded''"

definition refused_error :: error where
  "refused_error = Error ''connect ECONNREFUSED''"

definition constantly :: "'b \<Rightarrow> 'a \<Rightarrow> 'b" where
  "constantly v x = v"

definition failing :: outcomes where
  "failing = \<lparr>api_get = constantly (Inl refused_error),
     launch_error = None, mkdir_error = None, newContext_error = None, newPage_error = None,
     attempt_files = constantly [],
     download_attempt = constantly (Inl timeout_error),
     read_error = None,
     post_attempt = constantly (constantly (Inl refused_error)),
     unlink_error = constantly None,
     readdir_error = None, rmdir_error = None,
     page_close_error = None, context_close_error = None\<rparr>"

definition example_form :: form where
  "example_form = \<lparr>f_url = ''https://efs.example/hook'', f_type = ''EFSReport'',
     f_conversationId = JStr '''', f_messageId = JStr ''m1'', f_filename = ''Invoice_2024.pdf''\<rparr>"

text \<open>
  A message whose body holds an anchor, an inbound event that names it, and outcomes in
  which everything works: the API returns the message, the first download attempt
  stores the file \<^verbatim>\<open>f1\<close> in the working directory, the first upload is answered with 200.
\<close>

definition report_message :: json where
  \<open>report_message =
     JObj [(''messages'', JObj [(''body'', JStr ''<a href="https://x/y?a=1&amp;b=2">Download</a>''),
                               (''conversation'', JObj [(''id'', JStr ''c9'')])])]\<close>

definition event_fields :: "string \<Rightarrow> (string \<times> json) list" where
  "event_fields url =
     [(''body'', JObj [(''latest_message'', JObj [(''id'', JStr ''m1'')]),
                       (''conversation'', JObj [(''id'', JStr ''c1'')])]),
      (''webhookUrl'', JStr url)]"

definition report_event :: json where
  "report_event = JObj (event_fields ''https://caller.example/hook'')"

definition eperm :: error where
  "eperm = Error ''EPERM: operation not permitted''"

definition working :: outcomes where
  "working = failing\<lparr>api_get := constantly (Inr report_message),
     download_attempt := constantly (Inr (InTemp ''f1'', ''GrandTotalReport_2024.pdf'')),
     post_attempt := constantly (constantly (Inr 200))\<rparr>"

section \<open>Notions for the proofs about runs\<close>

text \<open>The same world behind a longer history.\<close>

definition with_prefix :: "event list \<Rightarrow> world \<Rightarrow> world" where
  "with_prefix t w = w\<lparr>trace := t @ trace w\<rparr>"

text \<open>
  The variables of the run know of every resource that the world holds: an open page, an
  open context, the working directory; and files exist only in a directory that exists.
\<close>

definition tracked :: "locals \<Rightarrow> world \<Rightarrow> bool" where
  "tracked L w =
     ((page_open w \<longrightarrow> l_page L) \<and> (context_open w \<longrightarrow> l_context L)
      \<and> (tmp_exists w \<longrightarrow> l_tempDir L) \<and> (\<not> tmp_exists w \<longrightarrow> tmp_files w = []))"

text \<open>The outcomes in which no operation of the file system, and no close, fails.\<close>

definition closes_succeed :: "outcomes \<Rightarrow> bool" where
  "closes_succeed orc = (page_close_error orc = None \<and> context_close_error orc = None)"

definition deletes_succeed :: "outcomes \<Rightarrow> bool" where
  "deletes_succeed orc =
     ((\<forall>p. unlink_error orc p = None) \<and> readdir_error orc = None \<and> rmdir_error orc = None)"

text \<open>An upload whose destination and label are those that the routing gives for its file name.\<close>

fun routed :: "config \<Rightarrow> event \<Rightarrow> bool" where
  "routed cfg (Post url type conversationId messageId filename) =
     (determineWebhookConfig cfg filename = Inr (url, type))"
| "routed cfg e = True"

text \<open>An event of the pipeline: no response to the caller, and, if an upload, a routed one.\<close>

definition pipeline_event :: "config \<Rightarrow> event \<Rightarrow> bool" where
  "pipeline_event cfg e = (\<not> is_respond e \<and> routed cfg e)"

section \<open>Properties of extractDownloadUrl\<close>













section \<open>Where extractDownloadUrl finds the body\<close>









section \<open>Properties of downloadWithRetry\<close>

declare downloadWithRetry.simps [simp del]
declare webhook_loop.simps [simp del]

lemma trace_emit: "trace (emit e w) = trace w @ [e]"
  by (simp add: emit_def)

lemma trace_store_file: "trace (store_file p w) = trace w"
  by (cases p) (simp_all add: store_file_def)

lemma trace_store_files: "trace (fold (\<lambda>f. store_file (InTemp f)) fs w) = trace w"
  by (induction fs arbitrary: w) (simp_all add: trace_store_file)

lemma attempts_emit: "attempts (emit e w) = attempts w + (if is_attempt e then 1 else 0)"
  by (simp add: attempts_def trace_emit)

lemma attempts_store_file: "attempts (store_file p w) = attempts w"
  by (simp add: attempts_def trace_store_file)

lemma attempts_store_files: "attempts (fold (\<lambda>f. store_file (InTemp f)) fs w) = attempts w"
  by (simp add: attempts_def trace_store_files)

lemma downloadWithRetry_bound:
  "attempts (snd (downloadWithRetry cfg orc url retries w))
     \<le> attempts w + 1 + nat (MAX_RETRIES cfg - int retries)"
proof (induction cfg orc url retries w rule: downloadWithRetry.induct)
  case (1 cfg orc url retries w)
  let ?w1 = "emit (DownloadAttempt retries url) w"
  let ?w2 = "fold (\<lambda>f. store_file (InTemp f)) (attempt_files orc retries) ?w1"
  have a2: "attempts ?w2 = attempts w + 1"
    by (simp add: attempts_store_files attempts_emit)
  show ?case
  proof (cases "download_attempt orc retries")
    case (Inr ok)
    then show ?thesis
      by (subst downloadWithRetry.simps) (simp add: Let_def attempts_store_file a2 split: prod.splits)
  next
    case (Inl e)
    show ?thesis
    proof (cases "int retries < MAX_RETRIES cfg")
      case True
      let ?w3 = "emit Reload (emit (Sleep RETRY_DELAY) ?w2)"
      have a3: "attempts ?w3 = attempts w + 1" by (simp add: attempts_emit a2)
      have "attempts (snd (downloadWithRetry cfg orc url (retries + 1) ?w3))
              \<le> attempts ?w3 + 1 + nat (MAX_RETRIES cfg - int (retries + 1))"
        using "1.IH" [OF refl refl Inl True] .
      also have "\<dots> = attempts w + 1 + nat (MAX_RETRIES cfg - int retries)"
        using True by (simp add: a3)
      finally show ?thesis
        using Inl True by (subst downloadWithRetry.simps) (simp add: Let_def)
    next
      case False
      then show ?thesis
        using Inl by (subst downloadWithRetry.simps) (simp add: Let_def a2)
    qed
  qed
qed

lemma downloadWithRetry_all_fail:
  "\<forall>k. download_attempt orc k = Inl (err k) \<Longrightarrow>
   attempts (snd (downloadWithRetry cfg orc url retries w))
           = attempts w + 1 + nat (MAX_RETRIES cfg - int retries)
       \<and> fst (downloadWithRetry cfg orc url retries w)
           = Inl (err (if int retries < MAX_RETRIES cfg then nat (MAX_RETRIES cfg) else retries))"
proof (induction cfg orc url retries w rule: downloadWithRetry.induct)
  case (1 cfg orc url retries w)
  let ?w1 = "emit (DownloadAttempt retries url) w"
  let ?w2 = "fold (\<lambda>f. store_file (InTemp f)) (attempt_files orc retries) ?w1"
  have a2: "attempts ?w2 = attempts w + 1"
    by (simp add: attempts_store_files attempts_emit)
  have Inl: "download_attempt orc retries = Inl (err retries)" using "1.prems" by simp
  show ?case
  proof (cases "int retries < MAX_RETRIES cfg")
    case True
    let ?w3 = "emit Reload (emit (Sleep RETRY_DELAY) ?w2)"
    have a3: "attempts ?w3 = attempts w + 1" by (simp add: attempts_emit a2)
    note IH = "1.IH" [OF refl refl Inl True "1.prems"]
    have step: "downloadWithRetry cfg orc url retries w = downloadWithRetry cfg orc url (retries + 1) ?w3"
      using Inl True by (subst downloadWithRetry.simps) (simp add: Let_def)
    have e: "(if int (retries + 1) < MAX_RETRIES cfg then nat (MAX_RETRIES cfg) else retries + 1)
        = nat (MAX_RETRIES cfg)" using True by auto
    have n: "attempts ?w3 + 1 + nat (MAX_RETRIES cfg - int (retries + 1))
        = attempts w + 1 + nat (MAX_RETRIES cfg - int retries)"
      using True unfolding a3 by linarith
    from IH have A: "attempts (snd (downloadWithRetry cfg orc url (retries + 1) ?w3))
        = attempts w + 1 + nat (MAX_RETRIES cfg - int retries)"
      unfolding n by (rule conjunct1)
    from IH have B: "fst (downloadWithRetry cfg orc url (retries + 1) ?w3) = Inl (err (nat (MAX_RETRIES cfg)))"
      unfolding e by (rule conjunct2)
    show ?thesis
      unfolding step using A B True by simp
  next
    case False
    then show ?thesis
      using Inl by (subst downloadWithRetry.simps, subst (2) downloadWithRetry.simps) (simp add: Let_def a2)
  qed
qed

lemma downloadWithRetry_negative:
  "MAX_RETRIES cfg < 0 \<Longrightarrow> attempts (snd (downloadWithRetry cfg orc url 0 w)) = attempts w + 1"
  by (subst downloadWithRetry.simps)
     (simp add: Let_def attempts_store_file attempts_store_files attempts_emit split: sum.splits prod.splits)

text \<open>
  Claim C2, amended. With \<^verbatim>\<open>MAX_RETRIES = 3\<close>, a download that fails on every attempt is
  attempted exactly 4 times and \<^verbatim>\<open>downloadWithRetry\<close> then fails with the error of the
  last attempt (attempt number 3, counted from 0). For every \<^verbatim>\<open>MAX_RETRIES\<close> that is not
  negative, it never makes more than \<^verbatim>\<open>1 + MAX_RETRIES\<close> attempts; for a negative
  \<^verbatim>\<open>MAX_RETRIES\<close> it makes exactly one attempt.
\<close>

theorem downloadWithRetry_attempts:
  "(MAX_RETRIES cfg = 3 \<and> (\<forall>k. download_attempt orc k = Inl (err k)) \<longrightarrow>
       attempts (snd (downloadWithRetry cfg orc url 0 w)) = attempts w + 4
     \<and> fst (downloadWithRetry cfg orc url 0 w) = Inl (err 3))
   \<and> (0 \<le> MAX_RETRIES cfg \<longrightarrow>
       int (attempts (snd (downloadWithRetry cfg orc url 0 w))) \<le> int (attempts w) + (1 + MAX_RETRIES cfg))
   \<and> (MAX_RETRIES cfg < 0 \<longrightarrow>
       attempts (snd (downloadWithRetry cfg orc url 0 w)) = attempts w + 1)"
proof (intro conjI impI)
  assume h: "MAX_RETRIES cfg = 3 \<and> (\<forall>k. download_attempt orc k = Inl (err k))"
  then have all: "\<forall>k. download_attempt orc k = Inl (err k)" by simp
  from downloadWithRetry_all_fail [OF all, of cfg url 0 w] h
  show "attempts (snd (downloadWithRetry cfg orc url 0 w)) = attempts w + 4"
    and "fst (downloadWithRetry cfg orc url 0 w) = Inl (err 3)"
    by simp_all
next
  assume "0 \<le> MAX_RETRIES cfg"
  with downloadWithRetry_bound [of cfg orc url 0 w]
  show "int (attempts (snd (downloadWithRetry cfg orc url 0 w))) \<le> int (attempts w) + (1 + MAX_RETRIES cfg)"
    by simp
next
  assume "MAX_RETRIES cfg < 0"
  then show "attempts (snd (downloadWithRetry cfg orc url 0 w)) = attempts w + 1"
    by (rule downloadWithRetry_negative)
qed

lemma attempts_empty_world: "attempts empty_world = 0"
  by (simp add: attempts_def empty_world_def)

lemma failing_download: "\<forall>k. download_attempt failing k = Inl (constantly timeout_error k)"
  by (simp add: failing_def constantly_def)

theorem downloadWithRetry_attempts_witness:
  "attempts (snd (downloadWithRetry default_config failing ''https://x/y'' 0 empty_world)) = 4
   \<and> fst (downloadWithRetry default_config failing ''https://x/y'' 0 empty_world) = Inl timeout_error
   \<and> int (attempts (snd (downloadWithRetry default_config failing ''https://x/y'' 0 empty_world))) \<le> 1 + 3
   \<and> attempts (snd (downloadWithRetry (default_config\<lparr>MAX_RETRIES := - 1\<rparr>) failing ''https://x/y'' 0 empty_world)) = 1"
proof -
  have m3: "MAX_RETRIES default_config = 3" by (simp add: default_config_def)
  have m1: "MAX_RETRIES (default_config\<lparr>MAX_RETRIES := - 1\<rparr>) < 0" by simp
  note T3 = downloadWithRetry_attempts [of default_config failing "constantly timeout_error" "''https://x/y''" empty_world]
  note T1 = downloadWithRetry_attempts [of "default_config\<lparr>MAX_RETRIES := - 1\<rparr>" failing "constantly timeout_error" "''https://x/y''" empty_world]
  from T3 m3 failing_download
  have a: "attempts (snd (downloadWithRetry default_config failing ''https://x/y'' 0 empty_world)) = 4"
    and b: "fst (downloadWithRetry default_config failing ''https://x/y'' 0 empty_world) = Inl timeout_error"
    by (simp_all add: attempts_empty_world constantly_def)
  from T3 m3
  have c: "int (attempts (snd (downloadWithRetry default_config failing ''https://x/y'' 0 empty_world))) \<le> 1 + 3"
    by (simp add: attempts_empty_world)
  from T1 m1
  have d: "attempts (snd (downloadWithRetry (default_config\<lparr>MAX_RETRIES := - 1\<rparr>) failing ''https://x/y'' 0 empty_world)) = 1"
    by (simp add: attempts_empty_world)
  from a b c d show ?thesis by (intro conjI)
qed

text \<open>
  Claim C2 as stated fails for a negative \<^verbatim>\<open>MAX_RETRIES\<close>: with \<^verbatim>\<open>MAX_RETRIES = -1\<close> the
  first attempt is still made, one attempt where \<^verbatim>\<open>1 + MAX_RETRIES\<close> is 0.
\<close>

theorem downloadWithRetry_bound_counterexample:
  "\<not> int (attempts (snd (downloadWithRetry (default_config\<lparr>MAX_RETRIES := - 1\<rparr>) failing ''https://x/y'' 0 empty_world)))
       \<le> 1 + MAX_RETRIES (default_config\<lparr>MAX_RETRIES := - 1\<rparr>)"
proof -
  have "MAX_RETRIES (default_config\<lparr>MAX_RETRIES := - 1\<rparr>) < 0" by simp
  then have "attempts (snd (downloadWithRetry (default_config\<lparr>MAX_RETRIES := - 1\<rparr>) failing ''https://x/y'' 0 empty_world)) = attempts empty_world + 1"
    by (rule downloadWithRetry_negative)
  then show ?thesis by (simp add: attempts_empty_world)
qed

section \<open>Properties of determineWebhookConfig\<close>

lemma str_includes_iff: "str_includes s m \<longleftrightarrow> (\<exists>ps ss. s = ps @ m @ ss)"
proof (induction s)
  case Nil
  then show ?case by auto
next
  case (Cons c cs)
  show ?case
  proof
    assume "str_includes (c # cs) m"
    then consider "prefix m (c # cs)" | "str_includes cs m" by (auto split: if_splits)
    then show "\<exists>ps ss. c # cs = ps @ m @ ss"
    proof cases
      case 1
      then obtain ss where "c # cs = m @ ss" by (auto simp: prefix_def)
      then have "c # cs = [] @ m @ ss" by simp
      then show ?thesis by blast
    next
      case 2
      with Cons obtain ps ss where "cs = ps @ m @ ss" by blast
      then have "c # cs = (c # ps) @ m @ ss" by simp
      then show ?thesis by blast
    qed
  next
    assume "\<exists>ps ss. c # cs = ps @ m @ ss"
    then obtain ps ss where e: "c # cs = ps @ m @ ss" by blast
    show "str_includes (c # cs) m"
    proof (cases ps)
      case Nil
      with e have "prefix m (c # cs)" by (simp add: prefix_def)
      then show ?thesis by simp
    next
      case (Cons p ps')
      with e have "cs = ps' @ m @ ss" by simp
      with Cons.IH have "str_includes cs m" by blast
      then show ?thesis by simp
    qed
  qed
qed

text \<open>
  Claim C4, amended. \<^verbatim>\<open>determineWebhookConfig\<close> is a function of the file name and the
  configuration alone. If the lower-cased name contains \<^verbatim>\<open>grandtotalreport\<close> it selects the
  fuel-report endpoint with the label \<^verbatim>\<open>FuelReport\<close>, otherwise the EFS-report endpoint
  with the label \<^verbatim>\<open>EFSReport\<close>; it fails with the not-configured error of the selected
  variable exactly when that variable is unset or set to the empty string. With both
  endpoints set, \<^verbatim>\<open>GrandTotalReport_2024.pdf\<close> and \<^verbatim>\<open>grandtotalreport.PDF\<close> go to the
  fuel-report endpoint and \<^verbatim>\<open>Invoice_2024.pdf\<close> to the EFS-report endpoint.
\<close>

theorem determineWebhookConfig_routing:
  "(if (\<exists>pre post. toLowerCase fileName = pre @ ''grandtotalreport'' @ post)
    then determineWebhookConfig cfg fileName =
           (case FUELREPORTWEBHOOK cfg of
              None \<Rightarrow> Inl fuel_error
            | Some u \<Rightarrow> if u = [] then Inl fuel_error else Inr (u, ''FuelReport''))
    else determineWebhookConfig cfg fileName =
           (case EFSREPORTWEBHOOK cfg of
              None \<Rightarrow> Inl efs_error
            | Some u \<Rightarrow> if u = [] then Inl efs_error else Inr (u, ''EFSReport'')))
   \<and> determineWebhookConfig default_config ''GrandTotalReport_2024.pdf''
        = Inr (''https://fuel.example/hook'', ''FuelReport'')
   \<and> determineWebhookConfig default_config ''grandtotalreport.PDF''
        = Inr (''https://fuel.example/hook'', ''FuelReport'')
   \<and> determineWebhookConfig default_config ''Invoice_2024.pdf''
        = Inr (''https://efs.example/hook'', ''EFSReport'')"
proof (intro conjI)
  show "if (\<exists>pre post. toLowerCase fileName = pre @ ''grandtotalreport'' @ post)
    then determineWebhookConfig cfg fileName =
           (case FUELREPORTWEBHOOK cfg of
              None \<Rightarrow> Inl fuel_error
            | Some u \<Rightarrow> if u = [] then Inl fuel_error else Inr (u, ''FuelReport''))
    else determineWebhookConfig cfg fileName =
           (case EFSREPORTWEBHOOK cfg of
              None \<Rightarrow> Inl efs_error
            | Some u \<Rightarrow> if u = [] then Inl efs_error else Inr (u, ''EFSReport''))"
    unfolding str_includes_iff [symmetric]
    by (simp add: determineWebhookConfig_def Let_def split: option.splits)
  show "determineWebhookConfig default_config ''GrandTotalReport_2024.pdf''
        = Inr (''https://fuel.example/hook'', ''FuelReport'')" by code_simp
  show "determineWebhookConfig default_config ''grandtotalreport.PDF''
        = Inr (''https://fuel.example/hook'', ''FuelReport'')" by code_simp
  show "determineWebhookConfig default_config ''Invoice_2024.pdf''
        = Inr (''https://efs.example/hook'', ''EFSReport'')" by code_simp
qed

theorem determineWebhookConfig_routing_witness:
  "determineWebhookConfig (default_config\<lparr>EFSREPORTWEBHOOK := None\<rparr>) ''FleetGrandTotalReport.pdf''
     = Inr (''https://fuel.example/hook'', ''FuelReport'')
   \<and> determineWebhookConfig (default_config\<lparr>EFSREPORTWEBHOOK := None\<rparr>) ''Invoice_2024.pdf'' = Inl efs_error"
proof -
  let ?cfg = "default_config\<lparr>EFSREPORTWEBHOOK := None\<rparr>"
  have l: "toLowerCase ''FleetGrandTotalReport.pdf'' = ''fleet'' @ ''grandtotalreport'' @ ''.pdf''"
    by code_simp
  then have yes: "\<exists>pre post. toLowerCase ''FleetGrandTotalReport.pdf'' = pre @ ''grandtotalreport'' @ post"
    by blast
  have ni: "\<not> str_includes (toLowerCase ''Invoice_2024.pdf'') ''grandtotalreport''" by code_simp
  have no: "\<not> (\<exists>pre post. toLowerCase ''Invoice_2024.pdf'' = pre @ ''grandtotalreport'' @ post)"
    using ni unfolding str_includes_iff .
  have f: "FUELREPORTWEBHOOK ?cfg = Some ''https://fuel.example/hook''" by (simp add: default_config_def)
  have e: "EFSREPORTWEBHOOK ?cfg = None" by simp
  from determineWebhookConfig_routing [of "''FleetGrandTotalReport.pdf''" ?cfg] yes
  have a: "determineWebhookConfig ?cfg ''FleetGrandTotalReport.pdf'' = Inr (''https://fuel.example/hook'', ''FuelReport'')"
    by (simp add: f)
  from determineWebhookConfig_routing [of "''Invoice_2024.pdf''" ?cfg] no
  have b: "determineWebhookConfig ?cfg ''Invoice_2024.pdf'' = Inl efs_error"
    by (simp add: e)
  from a b show ?thesis by (intro conjI)
qed

text \<open>
  Claim C4 as stated fails for a variable that is set to the empty string: the function
  fails although the variable is set.
\<close>

theorem determineWebhookConfig_unset_counterexample:
  "\<not> (isl (determineWebhookConfig (default_config\<lparr>FUELREPORTWEBHOOK := Some ''''\<rparr>) ''GrandTotalReport_2024.pdf'')
        \<longleftrightarrow> FUELREPORTWEBHOOK (default_config\<lparr>FUELREPORTWEBHOOK := Some ''''\<rparr>) = None)"
proof -
  have "determineWebhookConfig (default_config\<lparr>FUELREPORTWEBHOOK := Some ''''\<rparr>) ''GrandTotalReport_2024.pdf''
      = Inl fuel_error" by code_simp
  then show ?thesis by simp
qed

section \<open>Properties of the relay loop\<close>

text \<open>
  Claim C5, at the default configuration with every upload refused. The loop posts four
  times (the first attempt and \<^verbatim>\<open>MAX_RETRIES = 3\<close> more), sleeps \<^verbatim>\<open>RETRY_DELAY\<close> between
  two attempts, and then throws an error whose message says "after 3 attempts": it names
  \<^verbatim>\<open>MAX_RETRIES\<close>, one less than the number of attempts made. An upload that is answered
  at once ends the loop with the status of the answer.
\<close>

theorem webhook_loop_misreports_attempts:
  "webhook_loop default_config failing example_form 0 empty_world =
     (Inl (Error ''Failed to send to webhook after 3 attempts: connect ECONNREFUSED''),
      empty_world\<lparr>trace :=
        [post_event example_form, Sleep 2000, post_event example_form, Sleep 2000,
         post_event example_form, Sleep 2000, post_event example_form]\<rparr>)
   \<and> length (posts (snd (webhook_loop default_config failing example_form 0 empty_world))) = 4
   \<and> webhook_loop default_config working example_form 0 empty_world =
     (Inr (Some 200), empty_world\<lparr>trace := [post_event example_form]\<rparr>)"
  by code_simp

section \<open>Two calls of initBrowser\<close>

text \<open>
  Claim C8, evaluated on two first calls. When both calls pass the test
  \<^verbatim>\<open>!globalBrowser\<close> before either launch has completed (schedule 0, 1, 0, 1), the
  browser is launched twice, the calls return two different instances, and
  \<^verbatim>\<open>globalBrowser\<close> keeps the second while the first stays alive without a reference.
  When the second call starts only after the first has returned (schedule 0, 0, 1, 1),
  there is one launch and both calls return the same instance.
\<close>

theorem initBrowser_concurrent_first_calls:
  "run_schedule [0, 1, 0, 1] (initial, [Ready, Ready])
     = (\<lparr>globalBrowser = Some 2, launches = 2\<rparr>, [Returned 1, Returned 2])
   \<and> run_schedule [0, 0, 1, 1] (initial, [Ready, Ready])
     = (\<lparr>globalBrowser = Some 1, launches = 1\<rparr>, [Returned 1, Returned 1])"
  by (simp add: initial_def)

section \<open>The shapes of the inbound payload\<close>


section \<open>Properties of a pipeline run\<close>

subsection \<open>Worlds behind a longer history\<close>

lemma with_prefix_fields [simp]:
  "browser (with_prefix t w) = browser w"
  "tmp_exists (with_prefix t w) = tmp_exists w"
  "tmp_files (with_prefix t w) = tmp_files w"
  "other_files (with_prefix t w) = other_files w"
  "page_open (with_prefix t w) = page_open w"
  "context_open (with_prefix t w) = context_open w"
  "trace (with_prefix t w) = t @ trace w"
  by (simp_all add: with_prefix_def)

lemma with_prefix_updates [simp]:
  "(with_prefix t w)\<lparr>browser := b\<rparr> = with_prefix t (w\<lparr>browser := b\<rparr>)"
  "(with_prefix t w)\<lparr>tmp_exists := b\<rparr> = with_prefix t (w\<lparr>tmp_exists := b\<rparr>)"
  "(with_prefix t w)\<lparr>tmp_files := fs\<rparr> = with_prefix t (w\<lparr>tmp_files := fs\<rparr>)"
  "(with_prefix t w)\<lparr>other_files := fs\<rparr> = with_prefix t (w\<lparr>other_files := fs\<rparr>)"
  "(with_prefix t w)\<lparr>page_open := b\<rparr> = with_prefix t (w\<lparr>page_open := b\<rparr>)"
  "(with_prefix t w)\<lparr>context_open := b\<rparr> = with_prefix t (w\<lparr>context_open := b\<rparr>)"
  by (simp_all add: with_prefix_def)

lemma emit_with_prefix [simp]: "emit e (with_prefix t w) = with_prefix t (emit e w)"
  by (simp add: emit_def with_prefix_def)

lemma file_exists_with_prefix [simp]: "file_exists p (with_prefix t w) = file_exists p w"
  by (simp add: file_exists_def split: path.splits)

lemma store_file_with_prefix [simp]: "store_file p (with_prefix t w) = with_prefix t (store_file p w)"
  by (simp add: store_file_def split: path.splits)

lemma remove_file_with_prefix [simp]: "remove_file p (with_prefix t w) = with_prefix t (remove_file p w)"
  by (simp add: remove_file_def split: path.splits)

lemma store_files_with_prefix [simp]:
  "fold (\<lambda>f. store_file (InTemp f)) fs (with_prefix t w) = with_prefix t (fold (\<lambda>f. store_file (InTemp f)) fs w)"
  by (induction fs arbitrary: w) simp_all

lemma fs_unlink_with_prefix [simp]:
  "fs_unlink orc p (with_prefix t w) = apsnd (with_prefix t) (fs_unlink orc p w)"
  by (simp add: fs_unlink_def Let_def split: option.splits)

lemma unlink_all_with_prefix [simp]:
  "unlink_all orc fs (with_prefix t w) = with_prefix t (unlink_all orc fs w)"
  by (induction fs arbitrary: w) simp_all

lemma cleanup_files_with_prefix [simp]:
  "cleanup_files orc L (with_prefix t w) = with_prefix t (cleanup_files orc L w)"
  by (simp add: cleanup_files_def Let_def split: option.splits)

lemma close_context_with_prefix [simp]:
  "close_context orc L (with_prefix t w) = apsnd (with_prefix t) (close_context orc L w)"
  by (simp add: close_context_def Let_def split: option.splits)

lemma close_page_with_prefix [simp]:
  "close_page orc L (with_prefix t w) = apsnd (with_prefix t) (close_page orc L w)"
  by (simp add: close_page_def Let_def split: option.splits)

lemma finally_block_with_prefix [simp]:
  "finally_block orc L (with_prefix t w) = apsnd (with_prefix t) (finally_block orc L w)"
  by (simp add: finally_block_def)

lemma fetchMissiveMessage_with_prefix [simp]:
  "fetchMissiveMessage cfg orc mid (with_prefix t w) = apsnd (with_prefix t) (fetchMissiveMessage cfg orc mid w)"
  by (simp add: fetchMissiveMessage_def Let_def split: option.splits sum.splits)

lemma initBrowser_with_prefix [simp]:
  "initBrowser orc (with_prefix t w) = apsnd (with_prefix t) (initBrowser orc w)"
  by (simp add: initBrowser_def Let_def split: option.splits)

lemma downloadWithRetry_with_prefix [simp]:
  "downloadWithRetry cfg orc url retries (with_prefix t w)
     = apsnd (with_prefix t) (downloadWithRetry cfg orc url retries w)"
proof (induction cfg orc url retries w rule: downloadWithRetry.induct)
  case (1 cfg orc url retries w)
  show ?case
  proof (cases "download_attempt orc retries")
    case (Inr ok)
    then show ?thesis
      by (subst downloadWithRetry.simps, subst (2) downloadWithRetry.simps)
         (simp add: Let_def split: prod.splits)
  next
    case (Inl e)
    show ?thesis
    proof (cases "int retries < MAX_RETRIES cfg")
      case True
      from "1.IH" [OF refl refl Inl True] Inl True show ?thesis
        by (subst downloadWithRetry.simps, subst (2) downloadWithRetry.simps) (simp add: Let_def)
    next
      case False
      with Inl show ?thesis
        by (subst downloadWithRetry.simps, subst (2) downloadWithRetry.simps) (simp add: Let_def)
    qed
  qed
qed

lemma webhook_loop_with_prefix [simp]:
  "webhook_loop cfg orc f k (with_prefix t w) = apsnd (with_prefix t) (webhook_loop cfg orc f k w)"
proof (induction cfg orc f k w rule: webhook_loop.induct)
  case (1 cfg orc f k w)
  show ?case
  proof (cases "int k \<le> MAX_RETRIES cfg")
    case False
    then show ?thesis
      by (subst webhook_loop.simps, subst (2) webhook_loop.simps) simp
  next
    case True
    note le = this
    show ?thesis
    proof (cases "post_attempt orc (f_url f) k")
      case (Inr status)
      with le show ?thesis
        by (subst webhook_loop.simps, subst (2) webhook_loop.simps) (simp add: Let_def)
    next
      case (Inl e)
      show ?thesis
      proof (cases "int (k + 1) > MAX_RETRIES cfg")
        case True
        with le Inl show ?thesis
          by (subst webhook_loop.simps, subst (2) webhook_loop.simps) (simp add: Let_def)
      next
        case False
        from "1.IH" [OF le refl Inl False] le Inl False show ?thesis
          by (subst webhook_loop.simps, subst (2) webhook_loop.simps) (simp add: Let_def)
      qed
    qed
  qed
qed

lemma apsnd3 [simp]: "(case apsnd g x of (a, b) \<Rightarrow> h a b) = (case x of (a, b) \<Rightarrow> h a (g b))"
  by (cases x) simp

lemma relay_stage_with_prefix [simp]:
  "relay_stage cfg orc L mid cid p fileName (with_prefix t w)
     = apsnd (apsnd (with_prefix t)) (relay_stage cfg orc L mid cid p fileName w)"
  by (simp add: relay_stage_def Let_def split: option.splits sum.splits prod.splits)

lemma download_stage_with_prefix [simp]:
  "download_stage cfg orc L mid cid url (with_prefix t w)
     = apsnd (apsnd (with_prefix t)) (download_stage cfg orc L mid cid url w)"
  by (simp add: download_stage_def Let_def split: option.splits sum.splits prod.splits)

lemma page_stage_with_prefix [simp]:
  "page_stage cfg orc L mid cid url (with_prefix t w)
     = apsnd (apsnd (with_prefix t)) (page_stage cfg orc L mid cid url w)"
  by (simp add: page_stage_def Let_def split: option.splits sum.splits prod.splits)

lemma browser_stage_with_prefix [simp]:
  "browser_stage cfg orc mid cid url (with_prefix t w)
     = apsnd (apsnd (with_prefix t)) (browser_stage cfg orc mid cid url w)"
  by (simp add: browser_stage_def Let_def split: option.splits sum.splits prod.splits)

lemma resolve_stage_with_prefix [simp]:
  "resolve_stage cfg orc mid cid (with_prefix t w)
     = apsnd (apsnd (with_prefix t)) (resolve_stage cfg orc mid cid w)"
  by (simp add: resolve_stage_def Let_def split: option.splits sum.splits prod.splits)

lemma catch_finally_with_prefix [simp]:
  "catch_finally orc (apsnd (apsnd (with_prefix t)) x) = apsnd (with_prefix t) (catch_finally orc x)"
  by (cases x) (simp add: catch_finally_def Let_def split: option.splits sum.splits prod.splits)

subsection \<open>The events that the pipeline adds\<close>

lemma good_emit:
  "list_all (pipeline_event cfg) (trace w) \<Longrightarrow> pipeline_event cfg e \<Longrightarrow>
   list_all (pipeline_event cfg) (trace (emit e w))"
  by (simp add: emit_def)

lemma pipeline_event_simps [simp]:
  "pipeline_event cfg (RequestWebhookUrl u)"
  "pipeline_event cfg (ApiGet i)"
  "pipeline_event cfg Launch"
  "pipeline_event cfg Mkdir"
  "pipeline_event cfg NewContext"
  "pipeline_event cfg NewPage"
  "pipeline_event cfg (DownloadAttempt k url)"
  "pipeline_event cfg (Sleep n)"
  "pipeline_event cfg Reload"
  "pipeline_event cfg (ReadFile p)"
  "pipeline_event cfg (Caught e)"
  "pipeline_event cfg (Unlink p)"
  "pipeline_event cfg Readdir"
  "pipeline_event cfg Rmdir"
  "pipeline_event cfg ClosePage"
  "pipeline_event cfg CloseContext"
  by (simp_all add: pipeline_event_def)

lemma trace_remove_file [simp]: "trace (remove_file p w) = trace w"
  by (cases p) (simp_all add: remove_file_def)

lemma trace_emit_simp [simp]: "trace (emit e w) = trace w @ [e]"
  by (simp add: emit_def)

lemma good_fs_unlink:
  "list_all (pipeline_event cfg) (trace w) \<Longrightarrow>
   list_all (pipeline_event cfg) (trace (snd (fs_unlink orc p w)))"
  by (simp add: fs_unlink_def Let_def split: option.splits)

lemma good_unlink_all:
  "list_all (pipeline_event cfg) (trace w) \<Longrightarrow>
   list_all (pipeline_event cfg) (trace (unlink_all orc fs w))"
  by (induction fs arbitrary: w) (simp_all add: good_fs_unlink)

lemma good_cleanup_files:
  "list_all (pipeline_event cfg) (trace w) \<Longrightarrow>
   list_all (pipeline_event cfg) (trace (cleanup_files orc L w))"
  by (simp add: cleanup_files_def Let_def good_fs_unlink good_unlink_all good_emit split: option.splits)

lemma good_close_context:
  "list_all (pipeline_event cfg) (trace w) \<Longrightarrow>
   list_all (pipeline_event cfg) (trace (snd (close_context orc L w)))"
  by (simp add: close_context_def Let_def split: option.splits)

lemma good_close_page:
  "list_all (pipeline_event cfg) (trace w) \<Longrightarrow>
   list_all (pipeline_event cfg) (trace (snd (close_page orc L w)))"
  by (simp add: close_page_def Let_def good_close_context split: option.splits)

lemma good_finally_block:
  "list_all (pipeline_event cfg) (trace w) \<Longrightarrow>
   list_all (pipeline_event cfg) (trace (snd (finally_block orc L w)))"
  by (simp add: finally_block_def good_close_page good_cleanup_files)

lemma good_fetch:
  "list_all (pipeline_event cfg) (trace w) \<Longrightarrow>
   list_all (pipeline_event cfg) (trace (snd (fetchMissiveMessage cfg' orc mid w)))"
  by (simp add: fetchMissiveMessage_def Let_def split: option.splits sum.splits)

lemma good_initBrowser:
  "list_all (pipeline_event cfg) (trace w) \<Longrightarrow>
   list_all (pipeline_event cfg) (trace (snd (initBrowser orc w)))"
  by (simp add: initBrowser_def Let_def split: option.splits)

lemma good_downloadWithRetry:
  "list_all (pipeline_event cfg) (trace w) \<Longrightarrow>
   list_all (pipeline_event cfg) (trace (snd (downloadWithRetry cfg' orc url retries w)))"
proof (induction cfg' orc url retries w rule: downloadWithRetry.induct)
  case (1 cfg' orc url retries w)
  let ?w2 = "fold (\<lambda>f. store_file (InTemp f)) (attempt_files orc retries) (emit (DownloadAttempt retries url) w)"
  have g2: "list_all (pipeline_event cfg) (trace ?w2)"
    using "1.prems" by (simp add: trace_store_files)
  show ?case
  proof (cases "download_attempt orc retries")
    case (Inr ok)
    with g2 show ?thesis
      by (subst downloadWithRetry.simps) (simp add: Let_def trace_store_file split: prod.splits)
  next
    case (Inl e)
    show ?thesis
    proof (cases "int retries < MAX_RETRIES cfg'")
      case True
      have "list_all (pipeline_event cfg) (trace (emit Reload (emit (Sleep RETRY_DELAY) ?w2)))"
        using g2 by simp
      from "1.IH" [OF refl refl Inl True this] Inl True show ?thesis
        by (subst downloadWithRetry.simps) (simp add: Let_def)
    next
      case False
      with Inl g2 show ?thesis
        by (subst downloadWithRetry.simps) (simp add: Let_def)
    qed
  qed
qed

lemma good_webhook_loop:
  "list_all (pipeline_event cfg) (trace w) \<Longrightarrow> pipeline_event cfg (post_event f) \<Longrightarrow>
   list_all (pipeline_event cfg) (trace (snd (webhook_loop cfg' orc f k w)))"
proof (induction cfg' orc f k w rule: webhook_loop.induct)
  case (1 cfg' orc f k w)
  show ?case
  proof (cases "int k \<le> MAX_RETRIES cfg'")
    case False
    with "1.prems" show ?thesis
      by (subst webhook_loop.simps) simp
  next
    case True
    note le = this
    have g1: "list_all (pipeline_event cfg) (trace (emit (post_event f) w))"
      using "1.prems" by simp
    show ?thesis
    proof (cases "post_attempt orc (f_url f) k")
      case (Inr status)
      with le g1 show ?thesis
        by (subst webhook_loop.simps) (simp add: Let_def)
    next
      case (Inl e)
      show ?thesis
      proof (cases "int (k + 1) > MAX_RETRIES cfg'")
        case True
        with le Inl g1 show ?thesis
          by (subst webhook_loop.simps) (simp add: Let_def)
      next
        case False
        have "list_all (pipeline_event cfg) (trace (emit (Sleep RETRY_DELAY) (emit (post_event f) w)))"
          using g1 by simp
        from "1.IH" [OF le refl Inl False this "1.prems"(2)] le Inl False show ?thesis
          by (subst webhook_loop.simps) (simp add: Let_def)
      qed
    qed
  qed
qed

lemma good_relay_stage:
  "list_all (pipeline_event cfg) (trace w) \<Longrightarrow>
   list_all (pipeline_event cfg) (trace (snd (snd (relay_stage cfg orc L mid cid p fileName w))))"
proof (cases "determineWebhookConfig cfg fileName")
  case (Inl e)
  assume "list_all (pipeline_event cfg) (trace w)"
  with Inl show ?thesis by (simp add: relay_stage_def)
next
  case (Inr ut)
  assume g: "list_all (pipeline_event cfg) (trace w)"
  obtain u t where ut: "ut = (u, t)" by (cases ut)
  let ?f = "\<lparr>f_url = u, f_type = t, f_conversationId = or_else cid (JStr ''''),
             f_messageId = mid, f_filename = fileName\<rparr>"
  have pe: "pipeline_event cfg (post_event ?f)"
    using Inr ut by (simp add: post_event_def pipeline_event_def)
  have g1: "list_all (pipeline_event cfg) (trace (emit (ReadFile p) w))" using g by simp
  from good_webhook_loop [OF g1 pe]
  have "list_all (pipeline_event cfg) (trace (snd (webhook_loop cfg orc ?f 0 (emit (ReadFile p) w))))" .
  with Inr ut g1 show ?thesis
    by (auto simp add: relay_stage_def Let_def split: option.splits sum.splits prod.splits)
qed

lemma good_download_stage:
  "list_all (pipeline_event cfg) (trace w) \<Longrightarrow>
   list_all (pipeline_event cfg) (trace (snd (snd (download_stage cfg orc L mid cid url w))))"
proof -
  assume g: "list_all (pipeline_event cfg) (trace w)"
  obtain r w1 where d: "downloadWithRetry cfg orc url 0 w = (r, w1)" by (cases "downloadWithRetry cfg orc url 0 w")
  from good_downloadWithRetry [OF g, of cfg orc url 0] d
  have g1: "list_all (pipeline_event cfg) (trace w1)" by simp
  show ?thesis
    using d g1 by (simp add: download_stage_def good_relay_stage split: sum.splits prod.splits)
qed

lemma good_page_stage:
  "list_all (pipeline_event cfg) (trace w) \<Longrightarrow>
   list_all (pipeline_event cfg) (trace (snd (snd (page_stage cfg orc L mid cid url w))))"
  by (simp add: page_stage_def Let_def good_download_stage split: option.splits)

lemma good_browser_stage:
  "list_all (pipeline_event cfg) (trace w) \<Longrightarrow>
   list_all (pipeline_event cfg) (trace (snd (snd (browser_stage cfg orc mid cid url w))))"
proof -
  assume g: "list_all (pipeline_event cfg) (trace w)"
  obtain r w1 where d: "initBrowser orc w = (r, w1)" by (cases "initBrowser orc w")
  from good_initBrowser [OF g, of orc] d
  have g1: "list_all (pipeline_event cfg) (trace w1)" by simp
  show ?thesis
    using d g1 by (simp add: browser_stage_def Let_def good_page_stage split: option.splits)
qed

lemma good_resolve_stage:
  "list_all (pipeline_event cfg) (trace w) \<Longrightarrow>
   list_all (pipeline_event cfg) (trace (snd (snd (resolve_stage cfg orc mid cid w))))"
proof -
  assume g: "list_all (pipeline_event cfg) (trace w)"
  obtain r w1 where d: "fetchMissiveMessage cfg orc mid w = (r, w1)"
    by (cases "fetchMissiveMessage cfg orc mid w")
  from good_fetch [OF g, of cfg orc mid] d
  have g1: "list_all (pipeline_event cfg) (trace w1)" by simp
  show ?thesis
    using d g1 by (simp add: resolve_stage_def Let_def good_browser_stage split: sum.splits)
qed

lemma good_catch_finally:
  "list_all (pipeline_event cfg) (trace (snd (snd x))) \<Longrightarrow>
   list_all (pipeline_event cfg) (trace (snd (catch_finally orc x)))"
proof -
  assume g: "list_all (pipeline_event cfg) (trace (snd (snd x)))"
  obtain thrown L w1 where d: "x = (thrown, L, w1)" by (cases x) auto
  with g have g1: "list_all (pipeline_event cfg) (trace w1)" by simp
  let ?w2 = "case thrown of Some e \<Rightarrow> emit (Caught e) w1 | None \<Rightarrow> w1"
  have g2: "list_all (pipeline_event cfg) (trace ?w2)" using g1 by (simp split: option.splits)
  obtain fe w3 where f: "finally_block orc L ?w2 = (fe, w3)" by (cases "finally_block orc L ?w2")
  from good_finally_block [OF g2, of orc L] f
  have g3: "list_all (pipeline_event cfg) (trace w3)" by simp
  show ?thesis
    using d f g3 by (simp add: catch_finally_def Let_def split: option.splits)
qed

subsection \<open>The run behind the acknowledgement\<close>

text \<open>Everything behind the log line of the request's \<^verbatim>\<open>webhookUrl\<close>.\<close>

lemma processDownloadAsync_split:
  "processDownloadAsync cfg orc rd mid cid w
     = apsnd (with_prefix (trace w @ [RequestWebhookUrl (provided_webhookUrl rd)]))
         (catch_finally orc (resolve_stage cfg orc mid cid (w\<lparr>trace := []\<rparr>)))"
proof -
  have "emit (RequestWebhookUrl (provided_webhookUrl rd)) w
      = with_prefix (trace w @ [RequestWebhookUrl (provided_webhookUrl rd)]) (w\<lparr>trace := []\<rparr>)"
    by (simp add: emit_def with_prefix_def)
  then show ?thesis
    by (simp add: processDownloadAsync_def try_block_def Let_def)
qed

lemma pipeline_rest:
  "list_all (pipeline_event cfg)
     (trace (snd (catch_finally orc (resolve_stage cfg orc mid cid (w\<lparr>trace := []\<rparr>)))))"
  by (rule good_catch_finally, rule good_resolve_stage) simp

lemma processDownloadAsync_trace:
  "\<exists>rest. trace (snd (processDownloadAsync cfg orc rd mid cid w)) = trace w @ rest
       \<and> list_all (pipeline_event cfg) rest"
proof -
  let ?x = "catch_finally orc (resolve_stage cfg orc mid cid (w\<lparr>trace := []\<rparr>))"
  have "trace (snd (processDownloadAsync cfg orc rd mid cid w))
      = trace w @ (RequestWebhookUrl (provided_webhookUrl rd) # trace (snd ?x))"
    unfolding processDownloadAsync_split by (cases ?x) simp
  moreover have "list_all (pipeline_event cfg) (RequestWebhookUrl (provided_webhookUrl rd) # trace (snd ?x))"
    using pipeline_rest [of cfg orc mid cid w] by simp
  ultimately show ?thesis by blast
qed

lemma find_messageId_falsy: "\<not> truthy rd \<Longrightarrow> \<not> truthy (find_messageId rd)"
  by (cases rd) (simp_all add: find_messageId_def first_truthy_def opt_prop_def)

lemma processreport_run:
  assumes "truthy (find_messageId (request_data body))"
  shows "processreport cfg orc now body w =
     (case processDownloadAsync cfg orc (request_data body) (find_messageId (request_data body))
             (find_conversationId (request_data body))
             (emit (Respond 200 (acknowledgement (find_messageId (request_data body))
                                   (find_conversationId (request_data body)) now)) w) of
        (Inl e, w1) \<Rightarrow> emit (Caught e) w1
      | (Inr u, w1) \<Rightarrow> w1)"
proof -
  from assms find_messageId_falsy have "truthy (request_data body)" by blast
  with assms show ?thesis by (simp add: processreport_def Let_def)
qed

text \<open>
  Claim C6. For a payload with a message identifier, the first thing the handler does is
  to answer with status 200; the content of the answer is made of the two identifiers of
  the payload and the time, so it does not depend on any outcome of the pipeline; every
  event of the pipeline (the fetch of the message, the download, the upload, the
  release) comes behind the answer, and no second answer is ever sent.
\<close>

theorem processreport_acknowledges_first:
  assumes "truthy (find_messageId (request_data body))"
  shows "\<exists>rest. trace (processreport cfg orc now body w)
            = trace w
              @ Respond 200 (acknowledgement (find_messageId (request_data body))
                               (find_conversationId (request_data body)) now)
              # rest
          \<and> list_all (\<lambda>e. \<not> is_respond e) rest"
proof -
  let ?rd = "request_data body"
  let ?ack = "Respond 200 (acknowledgement (find_messageId ?rd) (find_conversationId ?rd) now)"
  let ?p = "processDownloadAsync cfg orc ?rd (find_messageId ?rd) (find_conversationId ?rd) (emit ?ack w)"
  obtain r w1 where p: "?p = (r, w1)" by (cases ?p)
  from processDownloadAsync_trace [of cfg orc ?rd "find_messageId ?rd" "find_conversationId ?rd" "emit ?ack w"] p
  obtain rest where t: "trace w1 = trace (emit ?ack w) @ rest" and g: "list_all (pipeline_event cfg) rest"
    by auto
  from g have nr: "list_all (\<lambda>e. \<not> is_respond e) rest"
    by (simp add: list_all_iff pipeline_event_def)
  show ?thesis
  proof (cases r)
    case (Inl e)
    with p have "processreport cfg orc now body w = emit (Caught e) w1"
      by (simp add: processreport_run [OF assms])
    with t have "trace (processreport cfg orc now body w) = trace w @ ?ack # (rest @ [Caught e])"
      by simp
    moreover have "list_all (\<lambda>e. \<not> is_respond e) (rest @ [Caught e])" using nr by simp
    ultimately show ?thesis by blast
  next
    case (Inr u)
    with p have "processreport cfg orc now body w = w1"
      by (simp add: processreport_run [OF assms])
    with t have "trace (processreport cfg orc now body w) = trace w @ ?ack # rest" by simp
    with nr show ?thesis by blast
  qed
qed

subsection \<open>What a stage leaves of the resources\<close>

lemma emit_fields [simp]:
  "browser (emit e w) = browser w"
  "tmp_exists (emit e w) = tmp_exists w"
  "tmp_files (emit e w) = tmp_files w"
  "other_files (emit e w) = other_files w"
  "page_open (emit e w) = page_open w"
  "context_open (emit e w) = context_open w"
  by (simp_all add: emit_def)

lemma tracked_emit [simp]: "tracked L (emit e w) = tracked L w"
  by (simp add: tracked_def)

lemma tracked_trace [simp]: "tracked L (w\<lparr>trace := t\<rparr>) = tracked L w"
  by (simp add: tracked_def)

lemma tracked_browser [simp]: "tracked L (w\<lparr>browser := b\<rparr>) = tracked L w"
  by (simp add: tracked_def)

lemma tracked_downloadPath [simp]: "tracked (L\<lparr>l_downloadPath := p\<rparr>) w = tracked L w"
  by (simp add: tracked_def)

lemma store_file_fields [simp]:
  "tmp_exists (store_file p w) = tmp_exists w"
  "page_open (store_file p w) = page_open w"
  "context_open (store_file p w) = context_open w"
  by (cases p; simp add: store_file_def)+

lemma store_files_fields [simp]:
  "tmp_exists (fold (\<lambda>f. store_file (InTemp f)) fs w) = tmp_exists w"
  "page_open (fold (\<lambda>f. store_file (InTemp f)) fs w) = page_open w"
  "context_open (fold (\<lambda>f. store_file (InTemp f)) fs w) = context_open w"
  by (induction fs arbitrary: w; simp)+

lemma downloadWithRetry_fields:
  "tmp_exists (snd (downloadWithRetry cfg orc url retries w)) = tmp_exists w
   \<and> page_open (snd (downloadWithRetry cfg orc url retries w)) = page_open w
   \<and> context_open (snd (downloadWithRetry cfg orc url retries w)) = context_open w"
proof (induction cfg orc url retries w rule: downloadWithRetry.induct)
  case (1 cfg orc url retries w)
  show ?case
  proof (cases "download_attempt orc retries")
    case (Inr ok)
    then show ?thesis
      by (subst downloadWithRetry.simps, subst (2) downloadWithRetry.simps, subst (3) downloadWithRetry.simps)
         (simp add: Let_def split: prod.splits)
  next
    case (Inl e)
    show ?thesis
    proof (cases "int retries < MAX_RETRIES cfg")
      case True
      from "1.IH" [OF refl refl Inl True] Inl True show ?thesis
        by (subst downloadWithRetry.simps, subst (2) downloadWithRetry.simps, subst (3) downloadWithRetry.simps)
           (simp add: Let_def)
    next
      case False
      with Inl show ?thesis
        by (subst downloadWithRetry.simps, subst (2) downloadWithRetry.simps, subst (3) downloadWithRetry.simps)
           (simp add: Let_def)
    qed
  qed
qed

lemma emit_untraced [simp]: "(emit e w)\<lparr>trace := []\<rparr> = w\<lparr>trace := []\<rparr>"
  by (simp add: emit_def)

lemma webhook_loop_state: "(snd (webhook_loop cfg orc f k w))\<lparr>trace := []\<rparr> = w\<lparr>trace := []\<rparr>"
proof (induction cfg orc f k w rule: webhook_loop.induct)
  case (1 cfg orc f k w)
  show ?case
  proof (cases "int k \<le> MAX_RETRIES cfg")
    case False
    then show ?thesis by (subst webhook_loop.simps) simp
  next
    case True
    note le = this
    show ?thesis
    proof (cases "post_attempt orc (f_url f) k")
      case (Inr status)
      with le show ?thesis
        by (subst webhook_loop.simps) (simp add: Let_def)
    next
      case (Inl e)
      show ?thesis
      proof (cases "int (k + 1) > MAX_RETRIES cfg")
        case True
        with le Inl show ?thesis
          by (subst webhook_loop.simps) (simp add: Let_def)
      next
        case False
        from "1.IH" [OF le refl Inl False] le Inl False show ?thesis
          by (subst webhook_loop.simps) (simp add: Let_def)
      qed
    qed
  qed
qed

lemma tracked_untraced: "tracked L w = tracked L (w\<lparr>trace := []\<rparr>)"
  by simp

lemma tracked_webhook_loop: "tracked L (snd (webhook_loop cfg orc f k w)) = tracked L w"
  by (subst tracked_untraced, subst webhook_loop_state) simp

lemma tracked_relay_stage:
  "tracked L w \<Longrightarrow>
   tracked (fst (snd (relay_stage cfg orc L mid cid p fileName w)))
           (snd (snd (relay_stage cfg orc L mid cid p fileName w)))"
proof (cases "determineWebhookConfig cfg fileName")
  case (Inl e)
  assume "tracked L w"
  with Inl show ?thesis by (simp add: relay_stage_def)
next
  case (Inr ut)
  assume g: "tracked L w"
  obtain u t where ut: "ut = (u, t)" by (cases ut)
  let ?f = "\<lparr>f_url = u, f_type = t, f_conversationId = or_else cid (JStr ''''),
             f_messageId = mid, f_filename = fileName\<rparr>"
  obtain r w2 where wl: "webhook_loop cfg orc ?f 0 (emit (ReadFile p) w) = (r, w2)"
    by (cases "webhook_loop cfg orc ?f 0 (emit (ReadFile p) w)")
  from tracked_webhook_loop [of L cfg orc ?f 0 "emit (ReadFile p) w"] wl g
  have "tracked L w2" by simp
  with Inr ut g wl show ?thesis
    by (simp add: relay_stage_def Let_def split: option.splits sum.splits)
qed

lemma tracked_download_stage:
  "tracked L w \<Longrightarrow> tmp_exists w \<Longrightarrow>
   tracked (fst (snd (download_stage cfg orc L mid cid url w)))
           (snd (snd (download_stage cfg orc L mid cid url w)))"
proof -
  assume g: "tracked L w" and ex: "tmp_exists w"
  obtain r w1 where d: "downloadWithRetry cfg orc url 0 w = (r, w1)"
    by (cases "downloadWithRetry cfg orc url 0 w")
  from downloadWithRetry_fields [of cfg orc url 0 w] d
  have "tmp_exists w1 = tmp_exists w" "page_open w1 = page_open w" "context_open w1 = context_open w"
    by simp_all
  with g ex have g1: "tracked L w1" by (simp add: tracked_def)
  show ?thesis
    using d g1 by (simp add: download_stage_def tracked_relay_stage split: sum.splits prod.splits)
qed

lemma tracked_page_stage:
  "tracked L w \<Longrightarrow> tmp_exists w \<Longrightarrow>
   tracked (fst (snd (page_stage cfg orc L mid cid url w)))
           (snd (snd (page_stage cfg orc L mid cid url w)))"
proof -
  assume g: "tracked L w" and ex: "tmp_exists w"
  let ?L1 = "L\<lparr>l_context := True\<rparr>"
  let ?w2 = "emit NewPage ((emit NewContext w)\<lparr>context_open := True\<rparr>)"
  have g2: "tracked ?L1 ?w2" using g ex by (simp add: tracked_def)
  have g3: "tracked (?L1\<lparr>l_page := True\<rparr>) (?w2\<lparr>page_open := True\<rparr>)"
    using g ex by (simp add: tracked_def)
  have ex3: "tmp_exists (?w2\<lparr>page_open := True\<rparr>)" using ex by simp
  have g1: "tracked L (emit NewContext w)" using g by simp
  show ?thesis
    using g1 g2 tracked_download_stage [OF g3 ex3]
    by (simp add: page_stage_def Let_def split: option.splits)
qed

lemma tracked_browser_stage:
  "tracked no_locals w \<Longrightarrow>
   tracked (fst (snd (browser_stage cfg orc mid cid url w)))
           (snd (snd (browser_stage cfg orc mid cid url w)))"
proof -
  assume g: "tracked no_locals w"
  obtain r w1 where d: "initBrowser orc w = (r, w1)" by (cases "initBrowser orc w")
  then have g1: "tracked no_locals w1"
    using g by (auto simp: initBrowser_def Let_def split: if_splits option.splits)
  let ?L = "no_locals\<lparr>l_tempDir := True\<rparr>"
  have g2: "tracked ?L (emit Mkdir w1)" using g1 by (simp add: tracked_def)
  have g3: "tracked ?L ((emit Mkdir w1)\<lparr>tmp_exists := True\<rparr>)"
    using g1 by (simp add: tracked_def no_locals_def)
  have ex: "tmp_exists ((emit Mkdir w1)\<lparr>tmp_exists := True\<rparr>)" by simp
  show ?thesis
    using d g1 g2 tracked_page_stage [OF g3 ex]
    by (simp add: browser_stage_def Let_def split: option.splits)
qed

lemma fetch_state: "(snd (fetchMissiveMessage cfg orc mid w))\<lparr>trace := []\<rparr> = w\<lparr>trace := []\<rparr>"
  by (simp add: fetchMissiveMessage_def Let_def split: option.splits sum.splits)

lemma tracked_fetch: "tracked L (snd (fetchMissiveMessage cfg orc mid w)) = tracked L w"
  by (subst tracked_untraced, subst fetch_state) simp

lemma tracked_resolve_stage:
  "tracked no_locals w \<Longrightarrow>
   tracked (fst (snd (resolve_stage cfg orc mid cid w)))
           (snd (snd (resolve_stage cfg orc mid cid w)))"
proof -
  assume g: "tracked no_locals w"
  obtain r w1 where d: "fetchMissiveMessage cfg orc mid w = (r, w1)"
    by (cases "fetchMissiveMessage cfg orc mid w")
  from tracked_fetch [of no_locals cfg orc mid w] d g have g1: "tracked no_locals w1" by simp
  show ?thesis
    using d g1 by (simp add: resolve_stage_def Let_def tracked_browser_stage split: sum.splits)
qed

lemma fresh_tracked: "fresh w \<Longrightarrow> tracked no_locals w"
  by (simp add: fresh_def tracked_def)

lemma tracked_try_block:
  "fresh w \<Longrightarrow>
   tracked (fst (snd (try_block cfg orc rd mid cid w)))
           (snd (snd (try_block cfg orc rd mid cid w)))"
  by (simp add: try_block_def Let_def tracked_resolve_stage fresh_tracked)

subsection \<open>The finally block\<close>

lemma remove_file_fields [simp]:
  "tmp_exists (remove_file p w) = tmp_exists w"
  "page_open (remove_file p w) = page_open w"
  "context_open (remove_file p w) = context_open w"
  by (cases p; simp add: remove_file_def)+

lemma fs_unlink_fields [simp]:
  "tmp_exists (snd (fs_unlink orc p w)) = tmp_exists w"
  "page_open (snd (fs_unlink orc p w)) = page_open w"
  "context_open (snd (fs_unlink orc p w)) = context_open w"
  by (simp_all add: fs_unlink_def Let_def split: option.splits)

lemma fs_unlink_no_dir:
  "\<not> tmp_exists w \<Longrightarrow> tmp_files (snd (fs_unlink orc p w)) = tmp_files w"
  by (cases p) (simp_all add: fs_unlink_def Let_def file_exists_def remove_file_def split: option.splits)

lemma fs_unlink_removes:
  "deletes_succeed orc \<Longrightarrow> tmp_exists w \<Longrightarrow>
   tmp_files (snd (fs_unlink orc (InTemp n) w)) = removeAll n (tmp_files w)"
  by (simp add: fs_unlink_def Let_def file_exists_def remove_file_def deletes_succeed_def)

lemma unlink_all_fields [simp]:
  "tmp_exists (unlink_all orc fs w) = tmp_exists w"
  "page_open (unlink_all orc fs w) = page_open w"
  "context_open (unlink_all orc fs w) = context_open w"
  by (induction fs arbitrary: w; simp)+

lemma unlink_all_removes:
  "deletes_succeed orc \<Longrightarrow> tmp_exists w \<Longrightarrow>
   tmp_files (unlink_all orc fs w) = filter (\<lambda>f. f \<notin> set fs) (tmp_files w)"
proof (induction fs arbitrary: w)
  case Nil
  then show ?case by simp
next
  case (Cons f fs)
  let ?w1 = "snd (fs_unlink orc (InTemp f) w)"
  have ex: "tmp_exists ?w1" using Cons.prems by simp
  have "tmp_files (unlink_all orc fs ?w1) = filter (\<lambda>g. g \<notin> set fs) (tmp_files ?w1)"
    using Cons.IH [OF Cons.prems(1) ex] .
  also have "tmp_files ?w1 = removeAll f (tmp_files w)"
    using Cons.prems by (rule fs_unlink_removes)
  finally show ?case by (auto simp add: removeAll_filter_not_eq intro: filter_cong)
qed

lemma cleanup_files_fields [simp]:
  "page_open (cleanup_files orc L w) = page_open w"
  "context_open (cleanup_files orc L w) = context_open w"
  by (simp_all add: cleanup_files_def Let_def split: option.splits)

lemma tracked_fs_unlink: "tracked L w \<Longrightarrow> tracked L (snd (fs_unlink orc p w))"
proof -
  assume t: "tracked L w"
  show ?thesis
  proof (cases "tmp_exists w")
    case True
    with t show ?thesis by (simp add: tracked_def)
  next
    case False
    with t fs_unlink_no_dir [OF False, of orc p] show ?thesis by (simp add: tracked_def)
  qed
qed

lemma cleanup_files_removes:
  assumes t: "tracked L w" and d: "deletes_succeed orc"
  shows "\<not> tmp_exists (cleanup_files orc L w) \<and> tmp_files (cleanup_files orc L w) = []"
proof -
  let ?w1 = "case l_downloadPath L of None \<Rightarrow> w | Some p \<Rightarrow> snd (fs_unlink orc p w)"
  have t1: "tracked L ?w1" using t by (simp add: tracked_fs_unlink split: option.splits)
  show ?thesis
  proof (cases "tmp_exists ?w1")
    case False
    with t1 have "tmp_files ?w1 = []" by (simp add: tracked_def)
    with False show ?thesis by (simp add: cleanup_files_def Let_def)
  next
    case True
    with t1 have l: "l_tempDir L" by (simp add: tracked_def)
    let ?w2 = "emit Readdir ?w1"
    have ex2: "tmp_exists ?w2" using True by simp
    have "tmp_files (unlink_all orc (tmp_files ?w2) ?w2) = filter (\<lambda>f. f \<notin> set (tmp_files ?w2)) (tmp_files ?w2)"
      using d ex2 by (rule unlink_all_removes)
    then have e: "tmp_files (unlink_all orc (tmp_files ?w2) ?w2) = []" by simp
    from d have r: "readdir_error orc = None" "rmdir_error orc = None" by (simp_all add: deletes_succeed_def)
    show ?thesis
      using l True e r by (simp add: cleanup_files_def Let_def)
  qed
qed

lemma close_page_closes:
  assumes c: "closes_succeed orc"
    and p: "page_open w \<longrightarrow> l_page L" and x: "context_open w \<longrightarrow> l_context L"
  shows "fst (close_page orc L w) = None
       \<and> \<not> page_open (snd (close_page orc L w)) \<and> \<not> context_open (snd (close_page orc L w))
       \<and> tmp_exists (snd (close_page orc L w)) = tmp_exists w
       \<and> tmp_files (snd (close_page orc L w)) = tmp_files w"
  using c p x by (auto simp: close_page_def close_context_def closes_succeed_def Let_def)

lemma finally_block_closes:
  assumes c: "closes_succeed orc" and t: "tracked L w"
  shows "fst (finally_block orc L w) = None
       \<and> \<not> page_open (snd (finally_block orc L w)) \<and> \<not> context_open (snd (finally_block orc L w))"
  using close_page_closes [OF c, of "cleanup_files orc L w" L] t
  by (simp add: finally_block_def tracked_def)

lemma finally_block_releases:
  assumes c: "closes_succeed orc" and d: "deletes_succeed orc" and t: "tracked L w"
  shows "released (snd (finally_block orc L w))"
  using close_page_closes [OF c, of "cleanup_files orc L w" L] t cleanup_files_removes [OF t d]
  by (simp add: finally_block_def tracked_def released_def)

lemma finally_block_never_throws:
  "closes_succeed orc \<Longrightarrow> fst (finally_block orc L w) = None"
  by (auto simp: finally_block_def close_page_def close_context_def closes_succeed_def Let_def)

lemma tracked_caught:
  "tracked L w \<Longrightarrow> tracked L (case thrown of Some e \<Rightarrow> emit (Caught e) w | None \<Rightarrow> w)"
  by (simp split: option.splits)

text \<open>
  Claim C1, amended. Take any run of \<^verbatim>\<open>processDownloadAsync\<close> that starts with no working
  directory, page or context of its own, whatever the outcomes of its stages. The
  \<^verbatim>\<open>finally\<close> block runs at the end of it. If the two close operations do not fail, the
  run ends with the page and the context closed and its promise fulfilled, even when
  deleting a file or removing the directory failed (such a failure is logged and
  swallowed, and the directory can then remain). If in addition no delete, listing or
  directory removal fails, nothing is left: every file of the directory is deleted and
  the directory is removed. Running the block a second time, on whatever the first time
  left, does not throw.
\<close>

theorem release_on_every_exit:
  assumes "fresh w"
  shows "(closes_succeed orc \<longrightarrow>
            fst (processDownloadAsync cfg orc rd mid cid w) = Inr ()
          \<and> \<not> page_open (snd (processDownloadAsync cfg orc rd mid cid w))
          \<and> \<not> context_open (snd (processDownloadAsync cfg orc rd mid cid w)))
       \<and> (closes_succeed orc \<and> deletes_succeed orc \<longrightarrow>
            released (snd (processDownloadAsync cfg orc rd mid cid w)))
       \<and> (closes_succeed orc \<longrightarrow>
            (\<forall>L w'. fst (finally_block orc L (snd (finally_block orc L w'))) = None))"
proof -
  obtain thrown L w1 where tb: "try_block cfg orc rd mid cid w = (thrown, L, w1)"
    by (cases "try_block cfg orc rd mid cid w") auto
  from tracked_try_block [OF assms, of cfg orc rd mid cid] tb have t1: "tracked L w1" by simp
  let ?w2 = "case thrown of Some e \<Rightarrow> emit (Caught e) w1 | None \<Rightarrow> w1"
  have t2: "tracked L ?w2" using t1 by (rule tracked_caught)
  obtain fe w3 where fb: "finally_block orc L ?w2 = (fe, w3)" by (cases "finally_block orc L ?w2")
  have run: "processDownloadAsync cfg orc rd mid cid w
      = (case fe of Some e \<Rightarrow> (Inl e, w3) | None \<Rightarrow> (Inr (), w3))"
    using tb fb by (simp add: processDownloadAsync_def catch_finally_def Let_def split: option.splits)
  have a: "closes_succeed orc \<longrightarrow>
            fst (processDownloadAsync cfg orc rd mid cid w) = Inr ()
          \<and> \<not> page_open (snd (processDownloadAsync cfg orc rd mid cid w))
          \<and> \<not> context_open (snd (processDownloadAsync cfg orc rd mid cid w))"
  proof
    assume c: "closes_succeed orc"
    from finally_block_closes [OF c t2] fb
    have "fe = None" "\<not> page_open w3" "\<not> context_open w3" by simp_all
    then show "fst (processDownloadAsync cfg orc rd mid cid w) = Inr ()
          \<and> \<not> page_open (snd (processDownloadAsync cfg orc rd mid cid w))
          \<and> \<not> context_open (snd (processDownloadAsync cfg orc rd mid cid w))"
      by (simp add: run)
  qed
  have b: "closes_succeed orc \<and> deletes_succeed orc \<longrightarrow>
            released (snd (processDownloadAsync cfg orc rd mid cid w))"
  proof
    assume cd: "closes_succeed orc \<and> deletes_succeed orc"
    then have c: "closes_succeed orc" and d: "deletes_succeed orc" by simp_all
    from finally_block_releases [OF c d t2] fb have "released w3" by simp
    then show "released (snd (processDownloadAsync cfg orc rd mid cid w))"
      by (simp add: run split: option.splits)
  qed
  have c: "closes_succeed orc \<longrightarrow>
            (\<forall>L w'. fst (finally_block orc L (snd (finally_block orc L w'))) = None)"
    by (simp add: finally_block_never_throws)
  from a b c show ?thesis by (intro conjI)
qed

subsection \<open>The destination of the upload\<close>







section \<open>Concrete runs checked\<close>

theorem processreport_acknowledges_first_witness:
  "(\<exists>rest. trace (processreport default_config working ''now'' report_event empty_world)
        = Respond 200 (acknowledgement (JStr ''m1'') (JStr ''c1'') ''now'') # rest
      \<and> list_all (\<lambda>e. \<not> is_respond e) rest)
   \<and> (\<exists>rest. trace (processreport default_config failing ''now'' report_event empty_world)
        = Respond 200 (acknowledgement (JStr ''m1'') (JStr ''c1'') ''now'') # rest
      \<and> list_all (\<lambda>e. \<not> is_respond e) rest)"
proof -
  have h: "truthy (find_messageId (request_data report_event))" by code_simp
  have m: "find_messageId (request_data report_event) = JStr ''m1''" by code_simp
  have c: "find_conversationId (request_data report_event) = JStr ''c1''" by code_simp
  have e: "trace empty_world = []" by (simp add: empty_world_def)
  from processreport_acknowledges_first [OF h, of default_config working "''now''" empty_world]
  have a: "\<exists>rest. trace (processreport default_config working ''now'' report_event empty_world)
        = Respond 200 (acknowledgement (JStr ''m1'') (JStr ''c1'') ''now'') # rest
      \<and> list_all (\<lambda>e. \<not> is_respond e) rest"
    by (simp add: m c e)
  from processreport_acknowledges_first [OF h, of default_config failing "''now''" empty_world]
  have b: "\<exists>rest. trace (processreport default_config failing ''now'' report_event empty_world)
        = Respond 200 (acknowledgement (JStr ''m1'') (JStr ''c1'') ''now'') # rest
      \<and> list_all (\<lambda>e. \<not> is_respond e) rest"
    by (simp add: m c e)
  from a b show ?thesis by (intro conjI)
qed



lemma fresh_empty_world: "fresh empty_world"
  by (simp add: fresh_def empty_world_def)

lemma closes_succeed_working: "closes_succeed (working\<lparr>unlink_error := u\<rparr>)"
  by (simp add: closes_succeed_def working_def failing_def)

lemma deletes_succeed_working: "deletes_succeed working"
  by (simp add: deletes_succeed_def working_def failing_def constantly_def)

theorem release_on_every_exit_witness:
  "released (snd (processDownloadAsync default_config working report_event (JStr ''m1'') (JStr ''c1'') empty_world))
   \<and> fst (processDownloadAsync default_config (working\<lparr>unlink_error := constantly (Some eperm)\<rparr>)
             report_event (JStr ''m1'') (JStr ''c1'') empty_world) = Inr ()
   \<and> \<not> page_open (snd (processDownloadAsync default_config (working\<lparr>unlink_error := constantly (Some eperm)\<rparr>)
             report_event (JStr ''m1'') (JStr ''c1'') empty_world))
   \<and> \<not> context_open (snd (processDownloadAsync default_config (working\<lparr>unlink_error := constantly (Some eperm)\<rparr>)
             report_event (JStr ''m1'') (JStr ''c1'') empty_world))
   \<and> fst (finally_block working no_locals (snd (finally_block working no_locals empty_world))) = None"
proof -
  note T = release_on_every_exit [OF fresh_empty_world]
  have cw: "closes_succeed working"
    using closes_succeed_working [of "unlink_error working"] by simp
  from T [of working default_config report_event "JStr ''m1''" "JStr ''c1''"] cw deletes_succeed_working
  have a: "released (snd (processDownloadAsync default_config working report_event (JStr ''m1'') (JStr ''c1'') empty_world))"
    by blast
  from T [of "working\<lparr>unlink_error := constantly (Some eperm)\<rparr>" default_config report_event "JStr ''m1''" "JStr ''c1''"]
    closes_succeed_working [of "constantly (Some eperm)"]
  have b: "fst (processDownloadAsync default_config (working\<lparr>unlink_error := constantly (Some eperm)\<rparr>)
             report_event (JStr ''m1'') (JStr ''c1'') empty_world) = Inr ()
   \<and> \<not> page_open (snd (processDownloadAsync default_config (working\<lparr>unlink_error := constantly (Some eperm)\<rparr>)
             report_event (JStr ''m1'') (JStr ''c1'') empty_world))
   \<and> \<not> context_open (snd (processDownloadAsync default_config (working\<lparr>unlink_error := constantly (Some eperm)\<rparr>)
             report_event (JStr ''m1'') (JStr ''c1'') empty_world))"
    by blast
  from T [of working default_config report_event "JStr ''m1''" "JStr ''c1''"] cw
  have c: "fst (finally_block working no_locals (snd (finally_block working no_locals empty_world))) = None"
    by blast
  from a b c show ?thesis by (intro conjI) simp_all
qed

text \<open>
  Claim C1 as stated fails when the file system refuses to delete a file: the file and
  the directory remain while the page and the context are closed.
\<close>

theorem release_partial_counterexample:
  "\<not> released (snd (processDownloadAsync default_config (working\<lparr>unlink_error := constantly (Some eperm)\<rparr>)
                      report_event (JStr ''m1'') (JStr ''c1'') empty_world))
   \<and> tmp_exists (snd (processDownloadAsync default_config (working\<lparr>unlink_error := constantly (Some eperm)\<rparr>)
                      report_event (JStr ''m1'') (JStr ''c1'') empty_world))
   \<and> \<not> context_open (snd (processDownloadAsync default_config (working\<lparr>unlink_error := constantly (Some eperm)\<rparr>)
                      report_event (JStr ''m1'') (JStr ''c1'') empty_world))"
  by code_simp

end
